theory Spec2Isabelle
  imports Main
begin

section \<open>Values shared by the handlers\<close>

text \<open>
  Instants are whole seconds: the \<open>iat\<close> and \<open>exp\<close> claims of a token count seconds, and
  the store's \<open>NOW()\<close> and \<open>DATETIME\<close> columns have second precision.
\<close>

type_synonym time = int

text \<open>
  Every exception the handlers can catch. \<open>error_name\<close> and \<open>error_code\<close> are the
  \<open>error.name\<close> and \<open>error.code\<close> the catch blocks inspect.
\<close>

datatype exn =
    Malformed
  | BadSignature
  | Expired
  | BadTimespan
  | StoreUnreachable
  | ER_DUP_ENTRY
  | ER_BAD_NULL_ERROR
  | ER_NO_DEFAULT_FOR_FIELD
  | BindUndefined

fun error_name :: "exn \<Rightarrow> string" where
  "error_name Malformed = ''JsonWebTokenError''"
| "error_name BadSignature = ''JsonWebTokenError''"
| "error_name Expired = ''TokenExpiredError''"
| "error_name BindUndefined = ''TypeError''"
| "error_name _ = ''Error''"

fun error_code :: "exn \<Rightarrow> string option" where
  "error_code StoreUnreachable = Some ''ECONNREFUSED''"
| "error_code ER_DUP_ENTRY = Some ''ER_DUP_ENTRY''"
| "error_code ER_BAD_NULL_ERROR = Some ''ER_BAD_NULL_ERROR''"
| "error_code ER_NO_DEFAULT_FOR_FIELD = Some ''ER_NO_DEFAULT_FOR_FIELD''"
| "error_code _ = None"

subsection \<open>JavaScript strings\<close>

text \<open>
  A string a request carries is the list of its UTF-16 code units: \<open>length\<close> counts
  them, as \<open>.length\<close> does, and a regular expression without the \<open>u\<close> flag reads them
  one by one. \<open>js\<close> gives the code units of a literal of the code.
\<close>

type_synonym jstring = "nat list"

definition js :: "string \<Rightarrow> jstring" where
  "js s = map of_char s"

text \<open>\<open>!x\<close> for a body field that is either absent or a string.\<close>

fun falsy :: "jstring option \<Rightarrow> bool" where
  "falsy None = True"
| "falsy (Some s) = (s = [])"

text \<open>
  The code units that \<open>\s\<close> matches and \<open>trim\<close> strips: white space and line
  terminators (tab, line feed, vertical tab, form feed, carriage return, space, no-break
  space, U+1680, U+2000 to U+200A, U+2028, U+2029, U+202F, U+205F, U+3000, U+FEFF).
\<close>

definition is_space :: "nat \<Rightarrow> bool" where
  "is_space c =
     (c \<in> {9, 10, 11, 12, 13, 32, 160, 5760, 8232, 8233, 8239, 8287, 12288, 65279}
      \<or> (8192 \<le> c \<and> c \<le> 8202))"

definition trim :: "jstring \<Rightarrow> jstring" where
  "trim s = rev (dropWhile is_space (rev (dropWhile is_space s)))"

subsection \<open>JSON values\<close>

datatype jvalue = JNull | JBool bool | JNum int | JStr jstring

fun truthy :: "jvalue option \<Rightarrow> bool" where
  "truthy None = False"
| "truthy (Some JNull) = False"
| "truthy (Some (JBool b)) = b"
| "truthy (Some (JNum n)) = (n \<noteq> 0)"
| "truthy (Some (JStr s)) = (s \<noteq> [])"

section \<open>Signed tokens\<close>

text \<open>
  Modelled from the spec: the \<open>jsonwebtoken\<close> package (\<open>jwt.sign\<close>, \<open>jwt.verify\<close>) is
  not among the sources. The spec's contract for it: a token embeds the user identity and
  an expiry, is signed with a server-held secret, self-describes its expiry, and
  \<open>verify\<close> answers the identity and expiry or fails with Malformed, Expired or
  BadSignature. A token is therefore a symbolic value: the claims it carries, the
  instants \<open>iat\<close> and \<open>exp\<close>, and the key it was signed with; any other string presented
  as a token is \<open>Text\<close>.
\<close>

datatype token =
    Jwt nat "jstring option" time time string
  | Text string

record decoded =
  d_userId :: nat
  d_email :: "jstring option"
  d_iat :: time
  d_exp :: time

text \<open>
  Modelled from the spec: \<open>jwt.sign(payload, secret, {expiresIn})\<close> of the missing
  \<open>jsonwebtoken\<close> package, at instant \<open>now\<close>; \<open>span\<close> is the validity window in
  seconds.
\<close>

definition jwt_sign :: "nat \<Rightarrow> jstring option \<Rightarrow> string \<Rightarrow> int \<Rightarrow> time \<Rightarrow> token" where
  "jwt_sign uid em secret span now = Jwt uid em now (now + span) secret"

text \<open>
  Modelled from the spec: \<open>jwt.verify(token, secret)\<close> of the missing \<open>jsonwebtoken\<close>
  package, at instant \<open>now\<close>: the format first, then the signature, then the expiry. A
  token is expired from its expiry instant on.
\<close>

fun jwt_verify :: "token \<Rightarrow> string \<Rightarrow> time \<Rightarrow> exn + decoded" where
  "jwt_verify (Text s) secret now = Inl Malformed"
| "jwt_verify (Jwt uid em iat ex key) secret now =
     (if key \<noteq> secret then Inl BadSignature
      else if ex \<le> now then Inl Expired
      else Inr \<lparr>d_userId = uid, d_email = em, d_iat = iat, d_exp = ex\<rparr>)"

fun token_exp :: "token \<Rightarrow> time option" where
  "token_exp (Jwt uid em iat ex key) = Some ex"
| "token_exp (Text s) = None"

text \<open>A token string is truthy unless it is the empty string.\<close>

fun no_token :: "token option \<Rightarrow> bool" where
  "no_token None = True"
| "no_token (Some (Text s)) = (s = [])"
| "no_token (Some (Jwt uid em iat ex key)) = False"

section \<open>The relational store\<close>

text \<open>
  The two tables of \<open>schema.sql\<close> the authentication code touches. Of \<open>users\<close>, the
  id, the credentials, the social identity, the avatar, the two status flags and the last
  login are typed fields; every other column (names, role, profile set-up flag and the
  rest of the profile) is kept by column name in \<open>u_cols\<close>, where an absent name is a
  NULL column. The \<open>createdAt\<close> and \<open>updatedAt\<close> columns, which only the store
  maintains and no statement of the code reads or writes, are left out. Strings are
  compared by equality: the collation of the tables (utf8mb4_unicode_ci), which also
  takes for equal two texts that differ in letter case, accents or trailing spaces, and
  the length limits of the columns are left out.
\<close>

datatype provider = Google | Facebook | Twitter | GitHub

record user =
  u_id :: nat
  u_email :: jstring
  u_password :: jstring
  u_avatar :: "jstring option"
  u_socialId :: "jstring option"
  u_socialProvider :: "provider option"
  u_emailVerified :: bool
  u_isActive :: bool
  u_lastLogin :: "time option"
  u_cols :: "string \<Rightarrow> jvalue option"

record session =
  s_id :: nat
  s_userId :: nat
  s_token :: token
  s_deviceInfo :: "jstring option"
  s_ipAddress :: "string option"
  s_userAgent :: "string option"
  s_isActive :: bool
  s_expiresAt :: time
  s_lastUsedAt :: time

text \<open>
  \<open>reachable\<close> says whether the pool can reach the server: while it cannot, every
  \<open>db.execute\<close> throws. \<open>nextUserId\<close> and \<open>nextSessionId\<close> are the AUTO_INCREMENT
  counters. \<open>strict_mode\<close> is the server's SQL mode: \<open>password\<close> is NOT NULL without a
  default, so an INSERT that leaves it out is refused in strict mode and stores the empty
  string otherwise.
\<close>

record store =
  users :: "user list"
  sessions :: "session list"
  nextUserId :: nat
  nextSessionId :: nat
  reachable :: bool
  strict_mode :: bool

definition execute :: "store \<Rightarrow> 'a \<Rightarrow> exn + 'a" where
  "execute db rows = (if reachable db then Inr rows else Inl StoreUnreachable)"

text \<open>The column defaults of \<open>users\<close> for the profile columns.\<close>

definition default_cols :: "string \<Rightarrow> jvalue option" where
  "default_cols =
     [''profileSetup'' \<mapsto> JNum 0, ''organicCertified'' \<mapsto> JNum 0,
      ''buyerType'' \<mapsto> JStr (js ''individual''), ''currency'' \<mapsto> JStr (js ''USD'')]"

definition new_user :: user where
  "new_user =
     \<lparr>u_id = 0, u_email = [], u_password = [], u_avatar = None, u_socialId = None,
      u_socialProvider = None, u_emailVerified = False, u_isActive = True,
      u_lastLogin = None, u_cols = default_cols\<rparr>"

text \<open>
  \<open>INSERT INTO users\<close>: \<open>email\<close> is NOT NULL and UNIQUE, the pair (socialId,
  socialProvider) is unique where both are set, and the new row gets the next id.
\<close>

definition social_clash :: "user \<Rightarrow> user \<Rightarrow> bool" where
  "social_clash a b =
     (u_socialId a \<noteq> None \<and> u_socialProvider a \<noteq> None \<and>
      u_socialId a = u_socialId b \<and> u_socialProvider a = u_socialProvider b)"

definition insert_user ::
  "jstring option \<Rightarrow> jstring option \<Rightarrow> user \<Rightarrow> store \<Rightarrow> exn + (nat \<times> store)" where
  "insert_user email password row db =
     (if \<not> reachable db then Inl StoreUnreachable
      else case email of
        None \<Rightarrow> Inl ER_BAD_NULL_ERROR
      | Some e \<Rightarrow>
          if password = None \<and> strict_mode db then Inl ER_NO_DEFAULT_FOR_FIELD
          else if filter (\<lambda>u. u_email u = e) (users db) \<noteq> [] then Inl ER_DUP_ENTRY
          else if filter (social_clash row) (users db) \<noteq> [] then Inl ER_DUP_ENTRY
          else Inr (nextUserId db,
                 db\<lparr>users := users db @
                       [row\<lparr>u_id := nextUserId db, u_email := e,
                            u_password := (case password of None \<Rightarrow> [] | Some h \<Rightarrow> h)\<rparr>],
                    nextUserId := nextUserId db + 1\<rparr>))"

text \<open>
  \<open>INSERT INTO user_sessions\<close> as the handlers of server.js issue it: no uniqueness
  constraint on the token. The statement binds \<open>req.ip\<close> and \<open>req.get("User-Agent")\<close> as
  they are, and the driver throws on a parameter that is \<open>undefined\<close>.
\<close>

definition insert_session ::
  "nat \<Rightarrow> token \<Rightarrow> jstring option \<Rightarrow> string option \<Rightarrow> string option \<Rightarrow> time \<Rightarrow> time \<Rightarrow> store
     \<Rightarrow> exn + store" where
  "insert_session uid tok device ip agent expiresAt now db =
     (if \<not> reachable db then Inl StoreUnreachable
      else if ip = None \<or> agent = None then Inl BindUndefined
      else Inr (db\<lparr>sessions := sessions db @
                  [\<lparr>s_id = nextSessionId db, s_userId = uid, s_token = tok,
                    s_deviceInfo = device, s_ipAddress = ip, s_userAgent = agent,
                    s_isActive = True, s_expiresAt = expiresAt, s_lastUsedAt = now\<rparr>],
                 nextSessionId := nextSessionId db + 1\<rparr>))"

text \<open>
  \<open>UPDATE user_sessions SET ... WHERE ...\<close> and \<open>UPDATE users SET ... WHERE ...\<close>. The
  statements on \<open>user_sessions\<close> that go through \<open>update_sessions\<close> set
  \<open>lastUsedAt = NOW()\<close> themselves.
\<close>

definition update_sessions ::
  "(session \<Rightarrow> bool) \<Rightarrow> (session \<Rightarrow> session) \<Rightarrow> store \<Rightarrow> exn + store" where
  "update_sessions cond upd db =
     execute db (db\<lparr>sessions := map (\<lambda>s. if cond s then upd s else s) (sessions db)\<rparr>)"

definition update_users ::
  "(user \<Rightarrow> bool) \<Rightarrow> (user \<Rightarrow> user) \<Rightarrow> store \<Rightarrow> exn + store" where
  "update_users cond upd db =
     execute db (db\<lparr>users := map (\<lambda>u. if cond u then upd u else u) (users db)\<rparr>)"

text \<open>
  \<open>UPDATE user_sessions SET isActive = 0 WHERE token = ?\<close>. The column \<open>lastUsedAt\<close> is
  declared ON UPDATE CURRENT_TIMESTAMP, so a row this statement changes (one that was
  active) also gets the current instant; a row that is inactive already is not changed.
\<close>

definition revoke_sessions :: "token \<Rightarrow> time \<Rightarrow> store \<Rightarrow> exn + store" where
  "revoke_sessions tok now db =
     execute db
       (db\<lparr>sessions :=
            map (\<lambda>s. if s_token s = tok \<and> s_isActive s
                      then s\<lparr>s_isActive := False, s_lastUsedAt := now\<rparr> else s)
              (sessions db)\<rparr>)"

section \<open>Requests and responses\<close>

text \<open>
  A request as the handlers read it. \<open>authorization\<close> is the value of the Authorization
  header as \<open>split(" ")\<close> cuts it, each piece read as a token; the body fields of the
  authentication routes are absent or strings; \<open>body\<close> is the JSON object of a profile
  update, key by key.
\<close>

record request =
  authorization :: "token list option"
  b_firstName :: "jstring option"
  b_lastName :: "jstring option"
  b_email :: "jstring option"
  b_password :: "jstring option"
  b_deviceInfo :: "jstring option"
  body :: "(string \<times> jvalue) list"
  ip :: "string option"
  userAgent :: "string option"

text \<open>
  The status and JSON body of a response; of the user object a success response carries,
  the id.
\<close>

record response =
  status :: nat
  error :: "string option"
  message :: "string option"
  details :: "string option"
  validation_errors :: "(string \<times> string) list option"
  success :: "bool option"
  user_id :: "nat option"
  token :: "token option"
  redirectTo :: "string option"

definition json :: "nat \<Rightarrow> response" where
  "json st =
     \<lparr>status = st, error = None, message = None, details = None,
      validation_errors = None, success = None,
      user_id = None, token = None, redirectTo = None\<rparr>"

definition json_error :: "nat \<Rightarrow> string \<Rightarrow> response" where
  "json_error st e = (json st)\<lparr>error := Some e\<rparr>"

definition json_error_message :: "nat \<Rightarrow> string \<Rightarrow> string \<Rightarrow> response" where
  "json_error_message st e m = (json st)\<lparr>error := Some e, message := Some m\<rparr>"

text \<open>A middleware either answers the request itself or calls \<open>next()\<close>.\<close>

datatype 'a gate = Rejected response | Next 'a

text \<open>\<open>authHeader && authHeader.split(" ")[1]\<close>\<close>

fun bearer :: "token list option \<Rightarrow> token option" where
  "bearer None = None"
| "bearer (Some (a # t # rest)) = Some t"
| "bearer (Some parts) = None"

text \<open>\<open>authorization && authorization.startsWith("Bearer ")\<close>\<close>

fun startsWith_Bearer :: "token list option \<Rightarrow> bool" where
  "startsWith_Bearer (Some (Text a # t # rest)) = (a = ''Bearer'')"
| "startsWith_Bearer h = False"

section \<open>Process environment and external collaborators\<close>

text \<open>
  What the modules read from outside: the environment variables, the \<open>ms\<close> parser that
  \<open>jwt.sign\<close> applies to a textual \<open>expiresIn\<close> (seconds, or nothing when the text is no
  timespan and \<open>jwt.sign\<close> throws), the engine's \<open>String.prototype.toLowerCase\<close> with
  its Unicode case mapping, \<open>bcrypt\<close>, the express-validator chain in front
  of the profile update, which answers the sanitised body or nothing when it found errors,
  the express-validator chain \<open>validateRegistration\<close> of routes/authRoutes.js, which
  answers the request with its body sanitised (\<open>trim\<close>, \<open>normalizeEmail\<close>) or the
  errors it found, each with its field and message, and the conversion the store applies
  when a statement assigns a JSON value to one of the typed columns of \<open>users\<close>.
\<close>

record deps =
  env_JWT_SECRET :: "string option"
  env_JWT_EXPIRES_IN :: "string option"
  timespan :: "string \<Rightarrow> int option"
  toLowerCase :: "jstring \<Rightarrow> jstring"
  bcrypt_hash :: "jstring \<Rightarrow> jstring"
  bcrypt_compare :: "jstring \<Rightarrow> jstring \<Rightarrow> bool"
  validation :: "(string \<times> jvalue) list \<Rightarrow> (string \<times> jvalue) list option"
  validateRegistration :: "request \<Rightarrow> (string \<times> string) list + request"
  typed_write :: "string \<Rightarrow> jvalue \<Rightarrow> user \<Rightarrow> user"

text \<open>\<open>process.env.X || fallback\<close>: an unset and an empty variable both give the fallback.\<close>

fun env_or :: "string option \<Rightarrow> string \<Rightarrow> string" where
  "env_or None d = d"
| "env_or (Some s) d = (if s = [] then d else s)"

section \<open>controllers/authController.js\<close>

definition JWT_SECRET :: "deps \<Rightarrow> string" where
  "JWT_SECRET D = env_or (env_JWT_SECRET D) ''your-fallback-secret''"

definition JWT_EXPIRES_IN :: "deps \<Rightarrow> string" where
  "JWT_EXPIRES_IN D = env_or (env_JWT_EXPIRES_IN D) ''7d''"

definition generateToken :: "deps \<Rightarrow> nat \<Rightarrow> time \<Rightarrow> exn + token" where
  "generateToken D userId now =
     (case timespan D (JWT_EXPIRES_IN D) of
        None \<Rightarrow> Inl BadTimespan
      | Some span \<Rightarrow> Inr (jwt_sign userId None (JWT_SECRET D) span now))"

subsection \<open>registerUser\<close>

text \<open>\<open>/^[^\s@]+@[^\s@]+\.[^\s@]+$/\<close>\<close>

definition at_sign :: nat where
  "at_sign = 64"

definition full_stop :: nat where
  "full_stop = 46"

definition plain_char :: "nat \<Rightarrow> bool" where
  "plain_char c = (\<not> is_space c \<and> c \<noteq> at_sign)"

definition emailRegex_test :: "jstring \<Rightarrow> bool" where
  "emailRegex_test s =
     (case dropWhile (\<lambda>c. c \<noteq> at_sign) s of
        [] \<Rightarrow> False
      | at # domain \<Rightarrow>
          takeWhile (\<lambda>c. c \<noteq> at_sign) s \<noteq> [] \<and>
          list_all plain_char (takeWhile (\<lambda>c. c \<noteq> at_sign) s) \<and>
          list_all plain_char domain \<and>
          full_stop \<in> set (tl (butlast domain)))"

definition user_exists :: response where
  "user_exists =
     json_error_message 409 ''User already exists''
       ''An account with this email address already exists''"

text \<open>The catch block of \<open>registerUser\<close>.\<close>

definition register_catch :: "exn \<Rightarrow> response" where
  "register_catch e =
     (if error_code e = Some ''ER_DUP_ENTRY'' then user_exists
      else json_error_message 500 ''Internal server error''
             ''Registration failed. Please try again.'')"

text \<open>
  What \<open>registerUser\<close> does once its existence check has found no row: hash, insert, sign,
  read the row back, answer 201. The store it runs on is the store at that moment, which
  another request may have changed since the check.
\<close>

definition register_create ::
  "deps \<Rightarrow> jstring \<Rightarrow> jstring \<Rightarrow> jstring \<Rightarrow> jstring \<Rightarrow> store \<Rightarrow> time \<Rightarrow> response \<times> store" where
  "register_create D firstName lastName email password db now =
     (case insert_user (Some (toLowerCase D email)) (Some (bcrypt_hash D password))
             (new_user\<lparr>u_cols := default_cols(''firstName'' \<mapsto> JStr (trim firstName),
                            ''lastName'' \<mapsto> JStr (trim lastName), ''role'' \<mapsto> JNull)\<rparr>) db of
        Inl e \<Rightarrow> (register_catch e, db)
      | Inr (userId, db') \<Rightarrow>
          (case generateToken D userId now of
             Inl e \<Rightarrow> (register_catch e, db')
           | Inr tok \<Rightarrow>
               (case execute db' (filter (\<lambda>u. u_id u = userId) (users db')) of
                  Inl e \<Rightarrow> (register_catch e, db')
                | Inr newUser \<Rightarrow>
                    ((json 201)\<lparr>success := Some True,
                        message := Some ''User registered successfully'',
                        user_id := map_option u_id (case newUser of [] \<Rightarrow> None | u # r \<Rightarrow> Some u),
                        token := Some tok, redirectTo := Some ''/role-selection''\<rparr>, db'))))"

definition registerUser :: "deps \<Rightarrow> request \<Rightarrow> store \<Rightarrow> time \<Rightarrow> response \<times> store" where
  "registerUser D req db now =
     (if falsy (b_firstName req) \<or> falsy (b_lastName req) \<or> falsy (b_email req)
           \<or> falsy (b_password req)
      then ((json_error 400 ''All fields are required'')
              \<lparr>details := Some ''firstName, lastName, email, and password are required''\<rparr>, db)
      else if \<not> emailRegex_test (the (b_email req))
      then (json_error 400 ''Invalid email format'', db)
      else if length (the (b_password req)) < 8
      then (json_error 400 ''Password must be at least 8 characters long'', db)
      else case execute db
                  (filter (\<lambda>u. u_email u = toLowerCase D (the (b_email req))) (users db)) of
             Inl e \<Rightarrow> (register_catch e, db)
           | Inr (u # existingUsers) \<Rightarrow> (user_exists, db)
           | Inr [] \<Rightarrow>
               register_create D (the (b_firstName req)) (the (b_lastName req))
                 (the (b_email req)) (the (b_password req)) db now)"

subsection \<open>loginUser\<close>

definition invalid_credentials :: response where
  "invalid_credentials =
     json_error_message 401 ''Invalid credentials'' ''Email or password is incorrect''"

definition login_failed :: response where
  "login_failed =
     json_error_message 500 ''Internal server error'' ''Login failed. Please try again.''"

definition loginUser :: "deps \<Rightarrow> request \<Rightarrow> store \<Rightarrow> time \<Rightarrow> response \<times> store" where
  "loginUser D req db now =
     (if falsy (b_email req) \<or> falsy (b_password req)
      then (json_error 400 ''Email and password are required'', db)
      else case execute db
                  (filter (\<lambda>u. u_email u = toLowerCase D (the (b_email req))) (users db)) of
             Inl e \<Rightarrow> (login_failed, db)
           | Inr [] \<Rightarrow> (invalid_credentials, db)
           | Inr (user # rest) \<Rightarrow>
               if \<not> bcrypt_compare D (the (b_password req)) (u_password user)
               then (invalid_credentials, db)
               else (case generateToken D (u_id user) now of
                       Inl e \<Rightarrow> (login_failed, db)
                     | Inr tok \<Rightarrow>
                         ((json 200)\<lparr>success := Some True, message := Some ''Login successful'',
                             user_id := Some (u_id user), token := Some tok,
                             redirectTo := Some (if truthy (u_cols user ''role'')
                                                 then ''/dashboard'' else ''/role-selection'')\<rparr>,
                          db)))"

subsection \<open>refreshToken\<close>

definition refreshToken :: "deps \<Rightarrow> request \<Rightarrow> store \<Rightarrow> time \<Rightarrow> response \<times> store" where
  "refreshToken D req db now =
     (if \<not> startsWith_Bearer (authorization req)
      then (json_error 401 ''No token provided'', db)
      else case bearer (authorization req) of
        None \<Rightarrow> (json_error 401 ''No token provided'', db)
      | Some tok \<Rightarrow>
         (case jwt_verify tok (JWT_SECRET D) now of
            Inl e \<Rightarrow> (json_error 401 ''Invalid or expired token'', db)
          | Inr dec \<Rightarrow>
             (case execute db
                     (filter (\<lambda>u. u_id u = d_userId dec \<and> u_isActive u) (users db)) of
                Inl e \<Rightarrow> (json_error 401 ''Invalid or expired token'', db)
              | Inr [] \<Rightarrow> (json_error 401 ''Invalid token'', db)
              | Inr (u # rest) \<Rightarrow>
                 (case generateToken D (d_userId dec) now of
                    Inl e \<Rightarrow> (json_error 401 ''Invalid or expired token'', db)
                  | Inr newToken \<Rightarrow>
                     (case update_sessions
                             (\<lambda>s. s_userId s = d_userId dec \<and> s_isActive s)
                             (\<lambda>s. s\<lparr>s_token := newToken, s_lastUsedAt := now\<rparr>) db of
                        Inl e \<Rightarrow> (json_error 401 ''Invalid or expired token'', db)
                      | Inr db' \<Rightarrow>
                          ((json 200)\<lparr>success := Some True, token := Some newToken\<rparr>, db'))))))"

subsection \<open>logoutUser\<close>

definition logoutUser :: "request \<Rightarrow> store \<Rightarrow> time \<Rightarrow> response \<times> store" where
  "logoutUser req db now =
     (case (if startsWith_Bearer (authorization req) then bearer (authorization req) else None) of
        None \<Rightarrow> ((json 200)\<lparr>success := Some True, message := Some ''Logout successful''\<rparr>, db)
      | Some tok \<Rightarrow>
          (case revoke_sessions tok now db of
             Inl e \<Rightarrow> (json_error 500 ''Internal server error'', db)
           | Inr db' \<Rightarrow>
               ((json 200)\<lparr>success := Some True, message := Some ''Logout successful''\<rparr>, db')))"

section \<open>middleware/auth.js\<close>

text \<open>
  The module reads the same environment variable with the same fallback as the
  controller, so \<open>JWT_SECRET\<close> is the controller's.
\<close>

record req_user =
  userId :: nat
  presented :: token

text \<open>The catch block of \<open>authenticateToken\<close>.\<close>

definition auth_catch :: "exn \<Rightarrow> response" where
  "auth_catch e =
     (if error_name e = ''JsonWebTokenError''
      then json_error_message 401 ''Invalid token'' ''Token is malformed''
      else if error_name e = ''TokenExpiredError''
      then json_error_message 401 ''Token expired'' ''Please login again''
      else json_error_message 500 ''Internal server error'' ''Authentication failed'')"

definition authenticateToken :: "deps \<Rightarrow> request \<Rightarrow> store \<Rightarrow> time \<Rightarrow> req_user gate" where
  "authenticateToken D req db now =
     (if no_token (bearer (authorization req))
      then Rejected (json_error_message 401 ''Access denied'' ''No token provided'')
      else case jwt_verify (the (bearer (authorization req))) (JWT_SECRET D) now of
        Inl e \<Rightarrow> Rejected (auth_catch e)
      | Inr dec \<Rightarrow>
          (case execute db (filter (\<lambda>u. u_id u = d_userId dec) (users db)) of
             Inl e \<Rightarrow> Rejected (auth_catch e)
           | Inr [] \<Rightarrow> Rejected (json_error_message 401 ''Invalid token'' ''User not found'')
           | Inr (u # rest) \<Rightarrow>
               Next \<lparr>userId = d_userId dec, presented = the (bearer (authorization req))\<rparr>))"

section \<open>routes/authRoutes.js\<close>

text \<open>
  \<open>router.post("/register", validateRegistration, handleValidationErrors, registerUser)\<close>:
  when the chain found errors, \<open>handleValidationErrors\<close> answers 400 with them as the
  \<open>details\<close> of the answer, kept here in \<open>validation_errors\<close>; otherwise the controller's
  handler runs on the sanitised request.
\<close>

definition register_route :: "deps \<Rightarrow> request \<Rightarrow> store \<Rightarrow> time \<Rightarrow> response \<times> store" where
  "register_route D req db now =
     (case validateRegistration D req of
        Inl errors \<Rightarrow>
          ((json_error 400 ''Validation failed'')\<lparr>validation_errors := Some errors\<rparr>, db)
      | Inr req' \<Rightarrow> registerUser D req' db now)"

text \<open>
  \<open>router.post("/logout", authenticateToken, logoutUser)\<close>: the middleware in front of
  the controller's handler.
\<close>

definition logout_route :: "deps \<Rightarrow> request \<Rightarrow> store \<Rightarrow> time \<Rightarrow> response \<times> store" where
  "logout_route D req db now =
     (case authenticateToken D req db now of
        Rejected r \<Rightarrow> (r, db)
      | Next u \<Rightarrow> logoutUser req db now)"

section \<open>server.js\<close>

text \<open>
  server.js mounts the router of routes/authRoutes.js on \<open>/api/auth\<close> before it registers
  its own handlers for \<open>/api/auth/register\<close>, \<open>/api/auth/login\<close> and
  \<open>/api/auth/logout\<close>, and the controller's handlers always answer: a request to one of
  these three paths is answered by the controller. Its other routes, the OAuth callbacks
  and everything behind its own \<open>authenticateToken\<close>, are its own. The login and logout
  handlers are embedded here as they are written.
\<close>

definition server_JWT_SECRET :: "deps \<Rightarrow> string" where
  "server_JWT_SECRET D =
     env_or (env_JWT_SECRET D) ''your-super-secret-jwt-key-change-in-production''"

text \<open>\<open>jwt.sign({ userId, email }, JWT_SECRET, { expiresIn: "7d" })\<close>\<close>

definition server_sign :: "deps \<Rightarrow> nat \<Rightarrow> jstring \<Rightarrow> time \<Rightarrow> exn + token" where
  "server_sign D uid email now =
     (case timespan D ''7d'' of
        None \<Rightarrow> Inl BadTimespan
      | Some span \<Rightarrow> Inr (jwt_sign uid (Some email) (server_JWT_SECRET D) span now))"

text \<open>\<open>new Date(Date.now() + 7 * 24 * 60 * 60 * 1000)\<close>, in seconds.\<close>

definition seven_days :: int where
  "seven_days = 7 * 24 * 60 * 60"

subsection \<open>authenticateToken\<close>

definition server_authenticateToken ::
  "deps \<Rightarrow> request \<Rightarrow> store \<Rightarrow> time \<Rightarrow> (decoded \<times> nat) gate \<times> store" where
  "server_authenticateToken D req db now =
     (if no_token (bearer (authorization req))
      then (Rejected (json_error 401 ''Access token required''), db)
      else case jwt_verify (the (bearer (authorization req))) (server_JWT_SECRET D) now of
        Inl e \<Rightarrow> (Rejected (json_error 403 ''Invalid token''), db)
      | Inr dec \<Rightarrow>
          (case execute db
                  (filter (\<lambda>s. s_token s = the (bearer (authorization req)) \<and> s_isActive s
                                \<and> now < s_expiresAt s) (sessions db)) of
             Inl e \<Rightarrow> (Rejected (json_error 403 ''Invalid token''), db)
           | Inr [] \<Rightarrow> (Rejected (json_error 403 ''Invalid or expired token''), db)
           | Inr (s # rest) \<Rightarrow>
               (case update_sessions (\<lambda>s. s_token s = the (bearer (authorization req)))
                       (\<lambda>s. s\<lparr>s_lastUsedAt := now\<rparr>) db of
                  Inl e \<Rightarrow> (Rejected (json_error 403 ''Invalid token''), db)
                | Inr db' \<Rightarrow> (Next (dec, s_id s), db'))))"

definition server_error :: response where
  "server_error = json_error 500 ''Internal server error''"

text \<open>\<open>req.body.deviceInfo || null\<close>\<close>

definition or_null :: "jstring option \<Rightarrow> jstring option" where
  "or_null x = (if falsy x then None else x)"

subsection \<open>POST /api/auth/login\<close>

definition server_login :: "deps \<Rightarrow> request \<Rightarrow> store \<Rightarrow> time \<Rightarrow> response \<times> store" where
  "server_login D req db now =
     (case b_email req of
        None \<Rightarrow> (server_error, db)
      | Some email \<Rightarrow>
          (case execute db (filter (\<lambda>u. u_email u = email \<and> u_isActive u) (users db)) of
             Inl e \<Rightarrow> (server_error, db)
           | Inr [] \<Rightarrow> (json_error 400 ''Invalid credentials'', db)
           | Inr (user # rest) \<Rightarrow>
               (case b_password req of
                  None \<Rightarrow> (server_error, db)
                | Some password \<Rightarrow>
                    if \<not> bcrypt_compare D password (u_password user)
                    then (json_error 400 ''Invalid credentials'', db)
                    else
                      (case update_users (\<lambda>u. u_id u = u_id user)
                              (\<lambda>u. u\<lparr>u_lastLogin := Some now\<rparr>) db of
                         Inl e \<Rightarrow> (server_error, db)
                       | Inr db1 \<Rightarrow>
                           (case server_sign D (u_id user) (u_email user) now of
                              Inl e \<Rightarrow> (server_error, db1)
                            | Inr tok \<Rightarrow>
                                (case insert_session (u_id user) tok (or_null (b_deviceInfo req))
                                        (ip req) (userAgent req) (now + seven_days) now db1 of
                                   Inl e \<Rightarrow> (server_error, db1)
                                 | Inr db2 \<Rightarrow>
                                     ((json 200)\<lparr>message := Some ''Login successful'',
                                         user_id := Some (u_id user), token := Some tok\<rparr>,
                                      db2)))))))"

subsection \<open>POST /api/auth/logout\<close>

definition server_logout :: "request \<Rightarrow> store \<Rightarrow> time \<Rightarrow> response \<times> store" where
  "server_logout req db now =
     (case bearer (authorization req) of
        None \<Rightarrow> (server_error, db)
      | Some tok \<Rightarrow>
          (case revoke_sessions tok now db of
             Inl e \<Rightarrow> (server_error, db)
           | Inr db' \<Rightarrow> ((json 200)\<lparr>message := Some ''Logged out successfully''\<rparr>, db')))"

subsection \<open>PUT /api/user/profile\<close>

definition allowedUpdates :: "string list" where
  "allowedUpdates =
     [''firstName'', ''lastName'', ''role'', ''phone'', ''bio'', ''country'', ''state'',
      ''city'', ''location'', ''zipCode'', ''profileSetup'', ''farmName'', ''farmSize'',
      ''farmType'', ''productsGrown'', ''organicCertified'', ''businessName'',
      ''businessType'', ''servicesOffered'', ''yearsInBusiness'', ''website'', ''buyerType'',
      ''interests'', ''monthlyBudget'', ''currency'']"

text \<open>
  \<open>UPDATE users SET k1 = ?, k2 = ?, ...\<close> on one row, the column names taken from the
  request: an assignment to one of the typed columns goes through the store's
  conversion, any other is kept by column name; the assignments apply left to right.
\<close>

definition typed_columns :: "string list" where
  "typed_columns =
     [''id'', ''email'', ''password'', ''avatar'', ''socialId'', ''socialProvider'',
      ''emailVerified'', ''isActive'', ''lastLogin'']"

definition set_column :: "deps \<Rightarrow> string \<Rightarrow> jvalue \<Rightarrow> user \<Rightarrow> user" where
  "set_column D k v u =
     (if k \<in> set typed_columns then typed_write D k v u
      else u\<lparr>u_cols := (u_cols u)(k \<mapsto> v)\<rparr>)"

fun set_columns :: "deps \<Rightarrow> (string \<times> jvalue) list \<Rightarrow> user \<Rightarrow> user" where
  "set_columns D [] u = u"
| "set_columns D ((k, v) # kvs) u = set_columns D kvs (set_column D k v u)"

definition profile_update ::
  "deps \<Rightarrow> (string \<times> jvalue) list \<Rightarrow> nat \<Rightarrow> store \<Rightarrow> response \<times> store" where
  "profile_update D req_body uid db =
     (case filter (\<lambda>(key, v). key \<in> set allowedUpdates) req_body of
        [] \<Rightarrow> (json_error 400 ''No valid fields to update'', db)
      | kv # kvs \<Rightarrow>
          (case update_users (\<lambda>u. u_id u = uid) (set_columns D (kv # kvs)) db of
             Inl e \<Rightarrow> (server_error, db)
           | Inr db' \<Rightarrow>
               (case execute db' (filter (\<lambda>u. u_id u = uid) (users db')) of
                  Inl e \<Rightarrow> (server_error, db')
                | Inr us \<Rightarrow>
                    ((json 200)\<lparr>message := Some ''Profile updated successfully'',
                        user_id := map_option u_id
                                     (case us of [] \<Rightarrow> None | u # r \<Rightarrow> Some u)\<rparr>, db'))))"

definition server_profile_put ::
  "deps \<Rightarrow> request \<Rightarrow> store \<Rightarrow> time \<Rightarrow> response \<times> store" where
  "server_profile_put D req db now =
     (case server_authenticateToken D req db now of
        (Rejected r, db1) \<Rightarrow> (r, db1)
      | (Next (dec, sid), db1) \<Rightarrow>
          (case validation D (body req) of
             None \<Rightarrow> (json_error 400 ''Validation failed'', db1)
           | Some sanitised \<Rightarrow> profile_update D sanitised (d_userId dec) db1))"

section \<open>config/oauth.js\<close>

text \<open>
  A provider profile as passport hands it over: \<open>p_emails\<close> and \<open>p_photos\<close> are the
  \<open>value\<close>s of \<open>profile.emails\<close> and \<open>profile.photos\<close>, \<open>p_givenName\<close> and
  \<open>p_familyName\<close> are \<open>profile.name?.givenName\<close> and \<open>profile.name?.familyName\<close>.
\<close>

record profile =
  p_id :: jstring
  p_emails :: "jstring list"
  p_photos :: "jstring list"
  p_givenName :: "jstring option"
  p_familyName :: "jstring option"
  p_displayName :: "jstring option"

fun split_on :: "nat \<Rightarrow> jstring \<Rightarrow> jstring list" where
  "split_on c [] = [[]]"
| "split_on c (x # xs) =
     (if x = c then [] # split_on c xs
      else case split_on c xs of
             w # ws \<Rightarrow> (x # w) # ws
           | [] \<Rightarrow> [[x]])"

text \<open>\<open>profile.displayName?.split(" ")[i]\<close>\<close>

definition displayName_word :: "profile \<Rightarrow> nat \<Rightarrow> jstring option" where
  "displayName_word p i =
     (case p_displayName p of
        None \<Rightarrow> None
      | Some d \<Rightarrow> (if i < length (split_on 32 d) then Some (split_on 32 d ! i) else None))"

text \<open>\<open>a || b || ""\<close> on values that are absent or strings.\<close>

definition or_empty :: "jstring option \<Rightarrow> jstring option \<Rightarrow> jstring" where
  "or_empty a b = (if \<not> falsy a then the a else if \<not> falsy b then the b else [])"

fun first_value :: "jstring list \<Rightarrow> jstring option" where
  "first_value [] = None"
| "first_value (v # vs) = Some v"

text \<open>
  Binding \<open>undefined\<close> as a statement parameter makes the driver throw; the link
  statement binds \<open>profile.photos?.[0]?.value\<close> as it is, the insert binds
  \<open>profile.photos?.[0]?.value || null\<close>.
\<close>

definition findOrCreateUser ::
  "profile \<Rightarrow> provider \<Rightarrow> store \<Rightarrow> (exn + user option) \<times> store" where
  "findOrCreateUser p prov db =
     (case execute db
             (filter (\<lambda>u. u_socialId u = Some (p_id p) \<and> u_socialProvider u = Some prov)
                (users db)) of
        Inl e \<Rightarrow> (Inl e, db)
      | Inr (u # existingUsers) \<Rightarrow> (Inr (Some u), db)
      | Inr [] \<Rightarrow>
          (case (if falsy (first_value (p_emails p)) then Inr []
                 else execute db
                        (filter (\<lambda>u. u_email u = the (first_value (p_emails p))) (users db))) of
             Inl e \<Rightarrow> (Inl e, db)
           | Inr (eu # emailUsers) \<Rightarrow>
               (case first_value (p_photos p) of
                  None \<Rightarrow> (Inl BindUndefined, db)
                | Some photo \<Rightarrow>
                    (case update_users (\<lambda>u. u_id u = u_id eu)
                            (\<lambda>u. u\<lparr>u_socialId := Some (p_id p), u_socialProvider := Some prov,
                                   u_avatar := Some photo\<rparr>) db of
                       Inl e \<Rightarrow> (Inl e, db)
                     | Inr db' \<Rightarrow> (Inr (Some eu), db')))
           | Inr [] \<Rightarrow>
               (case insert_user (first_value (p_emails p)) None
                       (new_user\<lparr>u_socialId := Some (p_id p), u_socialProvider := Some prov,
                          u_avatar := (if falsy (first_value (p_photos p)) then None
                                       else first_value (p_photos p)),
                          u_emailVerified := True,
                          u_cols := default_cols
                            (''firstName'' \<mapsto>
                               JStr (or_empty (p_givenName p) (displayName_word p 0)),
                             ''lastName'' \<mapsto>
                               JStr (or_empty (p_familyName p) (displayName_word p 1)),
                             ''profileSetup'' \<mapsto> JNum 0)\<rparr>) db of
                  Inl e \<Rightarrow> (Inl e, db)
                | Inr (insertId, db') \<Rightarrow>
                    (case execute db' (filter (\<lambda>u. u_id u = insertId) (users db')) of
                       Inl e \<Rightarrow> (Inl e, db')
                     | Inr [] \<Rightarrow> (Inr None, db')
                     | Inr (u # newUser) \<Rightarrow> (Inr (Some u), db')))))"

section \<open>Start-up\<close>

text \<open>
  \<open>connectDB\<close> of config/database.js tries the pool; when the attempt fails with
  ER_BAD_DB_ERROR it creates the database and calls itself again, and every other
  failure, and a failed creation, rejects. The store's answers to successive attempts are
  a script: an attempt connects, or fails with an error code and with the database
  creation that may follow succeeding or not. With the script used up the promise is
  still pending.
\<close>

datatype attempt = Connects | Fails string bool

datatype promise = Resolved | Rejects | Pending

fun connectDB :: "attempt list \<Rightarrow> promise" where
  "connectDB [] = Pending"
| "connectDB (Connects # script) = Resolved"
| "connectDB (Fails code created # script) =
     (if code = ''ER_BAD_DB_ERROR'' then (if created then connectDB script else Rejects)
      else Rejects)"

text \<open>What the process does that the outside sees, in order.\<close>

datatype proc_event = Listen | Exit nat

text \<open>
  server.js calls \<open>connectDB()\<close> without awaiting it and hangs \<open>process.exit(1)\<close> on its
  rejection; the module body then runs to its end, where \<open>app.listen(PORT)\<close> stands, before
  any promise callback can run.
\<close>

definition server_main :: "attempt list \<Rightarrow> proc_event list" where
  "server_main script =
     Listen # (case connectDB script of Rejects \<Rightarrow> [Exit 1] | _ \<Rightarrow> [])"

text \<open>
  The other entry module awaits \<open>connectDB()\<close> inside a try block and calls
  \<open>app.listen(PORT)\<close> after it; its catch block calls \<open>process.exit(1)\<close>.
\<close>

definition start_server :: "attempt list \<Rightarrow> proc_event list" where
  "start_server script =
     (case connectDB script of
        Resolved \<Rightarrow> [Listen]
      | Rejects \<Rightarrow> [Exit 1]
      | Pending \<Rightarrow> [])"

section \<open>Notions the statements use\<close>

text \<open>
  What a logout may change: nothing but the \<open>isActive\<close> flag and the \<open>lastUsedAt\<close>
  instant of session rows, and of those only rows that hold the presented token; no row
  becomes active; every other session row, and everything else in the store, stays as it
  is.
\<close>

definition revokes_only :: "token option \<Rightarrow> store \<Rightarrow> store \<Rightarrow> bool" where
  "revokes_only presented_token db db' =
     (db' = db\<lparr>sessions := sessions db'\<rparr>
      \<and> length (sessions db') = length (sessions db)
      \<and> (\<forall>i < length (sessions db).
            sessions db' ! i =
              (sessions db ! i)\<lparr>s_isActive := s_isActive (sessions db' ! i),
                                 s_lastUsedAt := s_lastUsedAt (sessions db' ! i)\<rparr>
            \<and> (s_isActive (sessions db' ! i) \<longrightarrow> s_isActive (sessions db ! i))
            \<and> (Some (s_token (sessions db ! i)) \<noteq> presented_token
                 \<longrightarrow> sessions db' ! i = sessions db ! i)))"

definition logout_ok :: response where
  "logout_ok = (json 200)\<lparr>success := Some True, message := Some ''Logout successful''\<rparr>"

text \<open>
  Two ways a login can fail: the first row the lookup selects does not match the
  password, or the lookup selects no row.
\<close>

definition wrong_password :: "deps \<Rightarrow> (user \<Rightarrow> bool) \<Rightarrow> jstring \<Rightarrow> store \<Rightarrow> bool" where
  "wrong_password D sel p db =
     (case filter sel (users db) of
        [] \<Rightarrow> False
      | u # us \<Rightarrow> \<not> bcrypt_compare D p (u_password u))"

definition unknown :: "(user \<Rightarrow> bool) \<Rightarrow> store \<Rightarrow> bool" where
  "unknown sel db = (filter sel (users db) = [])"

text \<open>What \<open>registerUser\<close> validates before it touches the store.\<close>

definition valid_registration :: "request \<Rightarrow> bool" where
  "valid_registration req =
     (\<not> falsy (b_firstName req) \<and> \<not> falsy (b_lastName req) \<and> \<not> falsy (b_email req)
      \<and> \<not> falsy (b_password req) \<and> emailRegex_test (the (b_email req))
      \<and> 8 \<le> length (the (b_password req)))"

text \<open>The typed columns of a user row.\<close>

definition protected :: "user \<Rightarrow> nat \<times> jstring \<times> jstring \<times> jstring option \<times> provider option
    \<times> bool \<times> bool \<times> jstring option \<times> time option" where
  "protected u =
     (u_id u, u_email u, u_password u, u_socialId u, u_socialProvider u, u_emailVerified u,
      u_isActive u, u_avatar u, u_lastLogin u)"

section \<open>Example states and requests\<close>

text \<open>
  An environment with no variable set, a \<open>ms\<close> that knows "7d", a case mapping that
  lowers the letters A to Z, a bcrypt stand-in that prefixes the password, validation
  chains that accept every body and every registration as it is, and a store that writes
  a string into \<open>email\<close> and \<open>password\<close> and a truth value into \<open>isActive\<close> and
  \<open>emailVerified\<close>.
\<close>

definition ascii_lower :: "jstring \<Rightarrow> jstring" where
  "ascii_lower s = map (\<lambda>c. if 65 \<le> c \<and> c \<le> 90 then c + 32 else c) s"

definition deps0 :: deps where
  "deps0 =
     \<lparr>env_JWT_SECRET = None, env_JWT_EXPIRES_IN = None,
      timespan = (\<lambda>s. if s = ''7d'' then Some 604800 else None),
      toLowerCase = ascii_lower,
      bcrypt_hash = (\<lambda>p. js ''$2b$12$'' @ p),
      bcrypt_compare = (\<lambda>p h. h = js ''$2b$12$'' @ p),
      validation = Some,
      validateRegistration = Inr,
      typed_write = (\<lambda>k v u.
        if k = ''email'' then u\<lparr>u_email := (case v of JStr e \<Rightarrow> e | _ \<Rightarrow> [])\<rparr>
        else if k = ''password'' then u\<lparr>u_password := (case v of JStr h \<Rightarrow> h | _ \<Rightarrow> [])\<rparr>
        else if k = ''isActive'' then u\<lparr>u_isActive := truthy (Some v)\<rparr>
        else if k = ''emailVerified'' then u\<lparr>u_emailVerified := truthy (Some v)\<rparr>
        else u)\<rparr>"

definition request_with :: "token list option \<Rightarrow> request" where
  "request_with h =
     \<lparr>authorization = h, b_firstName = None, b_lastName = None, b_email = None,
      b_password = None, b_deviceInfo = None, body = [], ip = None, userAgent = None\<rparr>"

definition bearer_request :: "token \<Rightarrow> request" where
  "bearer_request tok = request_with (Some [Text ''Bearer'', tok])"

definition alice :: user where
  "alice =
     new_user\<lparr>u_id := 1, u_email := js ''a@x.com'',
       u_password := js ''$2b$12$'' @ js ''pw123456''\<rparr>"

definition session_of :: "nat \<Rightarrow> token \<Rightarrow> time \<Rightarrow> session" where
  "session_of uid tok t =
     \<lparr>s_id = 1, s_userId = uid, s_token = tok, s_deviceInfo = None, s_ipAddress = None,
      s_userAgent = None, s_isActive = True, s_expiresAt = t + seven_days, s_lastUsedAt = t\<rparr>"

definition store_with :: "user list \<Rightarrow> session list \<Rightarrow> store" where
  "store_with us ss =
     \<lparr>users = us, sessions = ss, nextUserId = 2, nextSessionId = 2, reachable = True,
      strict_mode = False\<rparr>"

text \<open>Alice's token as the controller signs it and as server.js signs it, at instant 10.\<close>

definition controller_token :: token where
  "controller_token = Jwt 1 None 10 604810 ''your-fallback-secret''"

definition server_token :: token where
  "server_token =
     Jwt 1 (Some (js ''a@x.com'')) 10 604810
       ''your-super-secret-jwt-key-change-in-production''"

definition controller_store :: store where
  "controller_store = store_with [alice] [session_of 1 controller_token 10]"

definition server_store :: store where
  "server_store = store_with [alice] [session_of 1 server_token 10]"

text \<open>
  An environment whose JWT_SECRET variable is set, so that the controller and server.js
  sign and verify with the same key; a token server.js issued under it, the token a
  refresh at instant 50 gives, and a store in which the former has a session.
\<close>

definition deps_shared :: deps where
  "deps_shared = deps0\<lparr>env_JWT_SECRET := Some ''s3cret''\<rparr>"

definition old_token :: token where
  "old_token = Jwt 1 (Some (js ''a@x.com'')) 10 604810 ''s3cret''"

definition refreshed_token :: token where
  "refreshed_token = Jwt 1 None 50 604850 ''s3cret''"

definition refresh_store :: store where
  "refresh_store = store_with [alice] [session_of 1 old_token 10]"

text \<open>Bob's account is deactivated; his password is "pw123456".\<close>

definition bob :: user where
  "bob =
     new_user\<lparr>u_id := 2, u_email := js ''b@x.com'',
       u_password := js ''$2b$12$'' @ js ''pw123456'', u_isActive := False\<rparr>"

definition login_request :: "string \<Rightarrow> string \<Rightarrow> request" where
  "login_request e p =
     (request_with None)\<lparr>b_email := Some (js e), b_password := Some (js p)\<rparr>"

definition register_request :: "string \<Rightarrow> string \<Rightarrow> string \<Rightarrow> string \<Rightarrow> request" where
  "register_request f l e p =
     (request_with None)\<lparr>b_firstName := Some (js f), b_lastName := Some (js l),
        b_email := Some (js e), b_password := Some (js p)\<rparr>"

definition empty_store :: store where
  "empty_store =
     \<lparr>users = [], sessions = [], nextUserId = 1, nextSessionId = 1, reachable = True,
      strict_mode = True\<rparr>"

text \<open>A Google profile, and an empty store whose server is not in strict mode.\<close>

definition google_profile :: profile where
  "google_profile =
     \<lparr>p_id = js ''g-117'', p_emails = [js ''a@x.com''],
      p_photos = [js ''https://x.com/a.png''], p_givenName = Some (js ''Ann''),
      p_familyName = None, p_displayName = Some (js ''Ann Lee'')\<rparr>"

definition lenient_store :: store where
  "lenient_store =
     \<lparr>users = [], sessions = [], nextUserId = 1, nextSessionId = 1, reachable = True,
      strict_mode = False\<rparr>"

text \<open>A profile update whose body also names columns that are not on the allow-list.\<close>

definition hostile_update :: request where
  "hostile_update =
     (bearer_request server_token)
       \<lparr>body := [(''email'', JStr (js ''evil@x.com'')), (''password'', JStr (js ''x'')),
                 (''isActive'', JNum 0), (''emailVerified'', JNum 1),
                 (''socialId'', JStr (js ''g-1'')), (''socialProvider'', JStr (js ''google'')),
                 (''bio'', JStr (js ''hello''))]\<rparr>"

section \<open>Facts about the store\<close>

lemma update_sessions_Inr:
  "update_sessions c f db = Inr db' \<longleftrightarrow>
     reachable db \<and> db' = db\<lparr>sessions := map (\<lambda>s. if c s then f s else s) (sessions db)\<rparr>"
  by (cases "reachable db") (auto simp add: update_sessions_def execute_def)

lemma startsWith_Bearer_bearer:
  "startsWith_Bearer h \<Longrightarrow> \<exists>tok. bearer h = Some tok"
  by (cases h rule: startsWith_Bearer.cases) simp_all

lemma js_eq [simp]: "js a = js b \<longleftrightarrow> a = b"
  by (simp add: js_def inj_map_eq_map[OF inj_of_char])

lemma js_Nil [simp]: "js a = [] \<longleftrightarrow> a = []"
  by (simp add: js_def)

lemma length_js [simp]: "length (js a) = length a"
  by (simp add: js_def)

lemma revoke_sessions_Inr:
  "revoke_sessions tok now db = Inr db' \<longleftrightarrow>
     reachable db \<and>
     db' = db\<lparr>sessions :=
               map (\<lambda>s. if s_token s = tok \<and> s_isActive s
                         then s\<lparr>s_isActive := False, s_lastUsedAt := now\<rparr> else s)
                 (sessions db)\<rparr>"
  by (cases "reachable db") (auto simp add: revoke_sessions_def execute_def)

lemma filter_deactivated:
  "filter (\<lambda>s. s_token s = tok \<and> s_isActive s \<and> P s)
     (map (\<lambda>s. if s_token s = tok \<and> s_isActive s
               then s\<lparr>s_isActive := False, s_lastUsedAt := now\<rparr> else s) xs) = []"
proof (induction xs)
  case Nil
  show ?case by simp
next
  case (Cons a xs)
  then show ?case by (cases "s_token a = tok"; cases "s_isActive a") simp_all
qed

lemma revoke_leaves_none_active:
  assumes "revoke_sessions tok now db = Inr db'"
  shows "filter (\<lambda>s. s_token s = tok \<and> s_isActive s \<and> P s) (sessions db') = []
           \<and> reachable db'"
  using assms by (simp add: revoke_sessions_Inr filter_deactivated)

section \<open>Token issue and verification\<close>

lemma generateToken_Inr:
  "generateToken D uid t0 = Inr tok \<longleftrightarrow>
     (\<exists>span. timespan D (JWT_EXPIRES_IN D) = Some span
            \<and> tok = Jwt uid None t0 (t0 + span) (JWT_SECRET D))"
  by (auto simp: generateToken_def jwt_sign_def split: option.splits)

text \<open>
  C4. Whenever the configured validity window parses, \<open>generateToken\<close> returns a token
  whose expiry is the issue instant plus the window; at every instant strictly before
  that expiry \<open>jwt.verify\<close> answers the same user id, and at every instant after it
  \<open>jwt.verify\<close> fails with Expired and the middleware answers 401 "Token expired".
\<close>

theorem issued_token_verifies_until_expiry:
  assumes "timespan D (JWT_EXPIRES_IN D) = Some span"
  shows "\<exists>tok. generateToken D uid t0 = Inr tok \<and> token_exp tok = Some (t0 + span)
           \<and> (\<forall>t. t < t0 + span \<longrightarrow>
                 (\<exists>dec. jwt_verify tok (JWT_SECRET D) t = Inr dec \<and> d_userId dec = uid
                        \<and> d_exp dec = t0 + span))
           \<and> (\<forall>t. t0 + span < t \<longrightarrow>
                 jwt_verify tok (JWT_SECRET D) t = Inl Expired
                 \<and> (\<forall>db. authenticateToken D (bearer_request tok) db t =
                      Rejected (json_error_message 401 ''Token expired'' ''Please login again'')))"
proof -
  have g: "generateToken D uid t0 = Inr (Jwt uid None t0 (t0 + span) (JWT_SECRET D))"
    using assms by (simp add: generateToken_Inr)
  show ?thesis
    unfolding g
    by (simp add: authenticateToken_def bearer_request_def request_with_def auth_catch_def)
qed

theorem issued_token_verifies_until_expiry_witness:
  "timespan deps0 (JWT_EXPIRES_IN deps0) = Some 604800
   \<and> generateToken deps0 7 1000 = Inr (Jwt 7 None 1000 605800 ''your-fallback-secret'')
   \<and> map_sum id d_userId
       (jwt_verify (Jwt 7 None 1000 605800 ''your-fallback-secret'') (JWT_SECRET deps0) 605799)
       = Inr 7
   \<and> jwt_verify (Jwt 7 None 1000 605800 ''your-fallback-secret'') (JWT_SECRET deps0) 605801
       = Inl Expired"
proof -
  have h: "timespan deps0 (JWT_EXPIRES_IN deps0) = Some 604800"
    by (simp add: deps0_def JWT_EXPIRES_IN_def)
  have s: "JWT_SECRET deps0 = ''your-fallback-secret''"
    by (simp add: deps0_def JWT_SECRET_def)
  from issued_token_verifies_until_expiry[OF h, of 7 1000]
  obtain tok where t: "generateToken deps0 7 1000 = Inr tok"
    and v: "\<forall>t. t < 1000 + 604800 \<longrightarrow>
              (\<exists>dec. jwt_verify tok (JWT_SECRET deps0) t = Inr dec \<and> d_userId dec = 7
                     \<and> d_exp dec = 1000 + 604800)"
    and x: "\<forall>t. 1000 + 604800 < t \<longrightarrow> jwt_verify tok (JWT_SECRET deps0) t = Inl Expired"
    by blast
  have tok: "tok = Jwt 7 None 1000 605800 ''your-fallback-secret''"
    using t h s by (simp add: generateToken_Inr)
  from v[THEN spec, of 605799]
  have "\<exists>dec. jwt_verify tok (JWT_SECRET deps0) 605799 = Inr dec \<and> d_userId dec = 7"
    by auto
  moreover from x[THEN spec, of 605801]
  have "jwt_verify tok (JWT_SECRET deps0) 605801 = Inl Expired"
    by simp
  ultimately show ?thesis using h t tok s by auto
qed

section \<open>Revocation and the two gateways\<close>

lemma server_gate_rejects:
  assumes "bearer (authorization req) = Some tok"
    and "filter (\<lambda>s. s_token s = tok \<and> s_isActive s \<and> t < s_expiresAt s) (sessions db) = []"
  shows "\<exists>r. server_authenticateToken D req db t = (Rejected r, db) \<and> status r \<in> {401, 403}
           \<and> (\<forall>dec. jwt_verify tok (server_JWT_SECRET D) t = Inr dec \<longrightarrow> reachable db \<longrightarrow>
                 r = json_error 403 ''Invalid or expired token'')"
proof (cases "no_token (Some tok)")
  case True
  then show ?thesis using assms(1)
    by (cases tok) (simp_all add: server_authenticateToken_def json_error_def json_def)
next
  case False
  show ?thesis
  proof (cases "jwt_verify tok (server_JWT_SECRET D) t")
    case (Inl e)
    then show ?thesis using False assms(1)
      by (simp add: server_authenticateToken_def json_error_def json_def)
  next
    case (Inr dec)
    then show ?thesis using False assms
      by (cases "reachable db")
         (simp_all add: server_authenticateToken_def execute_def json_error_def json_def)
  qed
qed

lemma authenticateToken_ignores_sessions:
  "authenticateToken D req (db\<lparr>sessions := ss\<rparr>) now = authenticateToken D req db now"
  by (simp add: authenticateToken_def execute_def split: sum.splits)

text \<open>
  C1, as amended. Once a logout handler (that of server.js, or \<open>logoutUser\<close> on a Bearer
  header) has run on a reachable store for a token, \<open>authenticateToken\<close> of server.js
  rejects every later request presenting that token, at any instant; when the token
  still passes \<open>jwt.verify\<close> the answer is 403 "Invalid or expired token", the answer of
  the session check. The middleware of middleware/auth.js answers a request after the
  logout as it would have answered it before.
\<close>

theorem revoked_token_rejected_by_session_check:
  assumes "bearer (authorization req) = Some tok" and "reachable db"
    and "bearer (authorization req') = Some tok"
  shows "(\<exists>r. server_authenticateToken D req' (snd (server_logout req db t0)) t
                 = (Rejected r, snd (server_logout req db t0))
              \<and> status r \<in> {401, 403}
              \<and> (\<forall>dec. jwt_verify tok (server_JWT_SECRET D) t = Inr dec \<longrightarrow>
                    r = json_error 403 ''Invalid or expired token''))
       \<and> (startsWith_Bearer (authorization req) \<longrightarrow>
           (\<exists>r. server_authenticateToken D req' (snd (logoutUser req db t0)) t
                   = (Rejected r, snd (logoutUser req db t0))
              \<and> status r \<in> {401, 403}
              \<and> (\<forall>dec. jwt_verify tok (server_JWT_SECRET D) t = Inr dec \<longrightarrow>
                    r = json_error 403 ''Invalid or expired token'')))
       \<and> authenticateToken D req' (snd (server_logout req db t0)) t
           = authenticateToken D req' db t
       \<and> authenticateToken D req' (snd (logoutUser req db t0)) t
           = authenticateToken D req' db t"
proof -
  obtain db' where u: "revoke_sessions tok t0 db = Inr db'"
    using assms(2) by (simp add: revoke_sessions_def execute_def)
  have a: "snd (server_logout req db t0) = db'"
    using assms(1) u by (simp add: server_logout_def)
  have b: "startsWith_Bearer (authorization req) \<Longrightarrow> snd (logoutUser req db t0) = db'"
    using assms(1) u by (simp add: logoutUser_def)
  from revoke_leaves_none_active[OF u, of "\<lambda>s. t < s_expiresAt s"]
  have none: "filter (\<lambda>s. s_token s = tok \<and> s_isActive s \<and> t < s_expiresAt s) (sessions db') = []"
    and reach: "reachable db'" by auto
  from server_gate_rejects[OF assms(3) none, of D] reach
  obtain r where r: "server_authenticateToken D req' db' t = (Rejected r, db')"
     "status r \<in> {401, 403}"
     "\<forall>dec. jwt_verify tok (server_JWT_SECRET D) t = Inr dec \<longrightarrow>
        r = json_error 403 ''Invalid or expired token''"
    by blast
  have m1: "authenticateToken D req' (snd (server_logout req db t0)) t
              = authenticateToken D req' db t"
    using a u by (simp add: revoke_sessions_Inr authenticateToken_ignores_sessions)
  have m2: "authenticateToken D req' (snd (logoutUser req db t0)) t
              = authenticateToken D req' db t"
  proof (cases "startsWith_Bearer (authorization req)")
    case True
    then show ?thesis
      using b u by (simp add: revoke_sessions_Inr authenticateToken_ignores_sessions)
  next
    case False
    then show ?thesis by (simp add: logoutUser_def)
  qed
  show ?thesis using a b r m1 m2 by auto
qed

theorem revoked_token_rejected_by_session_check_witness:
  "bearer (authorization (bearer_request server_token)) = Some server_token
   \<and> reachable server_store
   \<and> map_sum id d_userId (jwt_verify server_token (server_JWT_SECRET deps0) 20) = Inr 1
   \<and> fst (server_authenticateToken deps0 (bearer_request server_token)
            (snd (server_logout (bearer_request server_token) server_store 15)) 20)
       = Rejected (json_error 403 ''Invalid or expired token'')"
proof -
  have h1: "bearer (authorization (bearer_request server_token)) = Some server_token"
    by (simp add: bearer_request_def request_with_def)
  have h2: "reachable server_store"
    by (simp add: server_store_def store_with_def)
  have v: "jwt_verify server_token (server_JWT_SECRET deps0) 20 =
             Inr \<lparr>d_userId = 1, d_email = Some (js ''a@x.com''), d_iat = 10, d_exp = 604810\<rparr>"
    by (simp add: server_token_def server_JWT_SECRET_def deps0_def)
  from revoked_token_rejected_by_session_check[OF h1 h2 h1, of deps0 15 20] v
  have "fst (server_authenticateToken deps0 (bearer_request server_token)
               (snd (server_logout (bearer_request server_token) server_store 15)) 20)
          = Rejected (json_error 403 ''Invalid or expired token'')"
    by auto
  then show ?thesis using h1 h2 v by simp
qed

text \<open>
  The claim as stated fails on the middleware of middleware/auth.js, which never reads
  \<open>user_sessions\<close>: after \<open>logoutUser\<close> has set the only session row of the token to
  inactive, the middleware still lets the token through.
\<close>

theorem revoked_token_passes_stateless_middleware:
  "map s_isActive (sessions controller_store) = [True]
   \<and> map s_isActive
       (sessions (snd (logoutUser (bearer_request controller_token) controller_store 15)))
       = [False]
   \<and> authenticateToken deps0 (bearer_request controller_token)
       (snd (logoutUser (bearer_request controller_token) controller_store 15)) 20
       = Next \<lparr>userId = 1, presented = controller_token\<rparr>"
  by (simp add: logoutUser_def authenticateToken_def bearer_request_def request_with_def
        controller_store_def store_with_def session_of_def controller_token_def
        revoke_sessions_def execute_def JWT_SECRET_def deps0_def alice_def new_user_def)

section \<open>Logout\<close>

lemma revokes_only_refl: "revokes_only t db db"
  by (simp add: revokes_only_def)

lemma revokes_only_revoke:
  "revokes_only (Some tok) db
     (db\<lparr>sessions := map (\<lambda>s. if s_token s = tok \<and> s_isActive s
                               then s\<lparr>s_isActive := False, s_lastUsedAt := now\<rparr> else s)
                         (sessions db)\<rparr>)"
  by (simp add: revokes_only_def)

lemma revoke_twice:
  "map (\<lambda>s. if s_token s = tok \<and> s_isActive s
            then s\<lparr>s_isActive := False, s_lastUsedAt := now'\<rparr> else s)
     (map (\<lambda>s. if s_token s = tok \<and> s_isActive s
               then s\<lparr>s_isActive := False, s_lastUsedAt := now\<rparr> else s) xs)
   = map (\<lambda>s. if s_token s = tok \<and> s_isActive s
              then s\<lparr>s_isActive := False, s_lastUsedAt := now\<rparr> else s) xs"
  by (induction xs) simp_all

lemma logoutUser_total_and_idempotent:
  assumes "reachable db"
  shows "fst (logoutUser req db now) = logout_ok
       \<and> revokes_only (bearer (authorization req)) db (snd (logoutUser req db now))
       \<and> logoutUser req (snd (logoutUser req db now)) now'
           = (logout_ok, snd (logoutUser req db now))"
proof (cases "startsWith_Bearer (authorization req)")
  case False
  then have "\<And>d n. logoutUser req d n = (logout_ok, d)"
    by (simp add: logoutUser_def logout_ok_def)
  then show ?thesis by (simp add: revokes_only_refl)
next
  case True
  then obtain tok where t: "bearer (authorization req) = Some tok"
    using startsWith_Bearer_bearer[of "authorization req"] by blast
  let ?db' = "db\<lparr>sessions := map (\<lambda>s. if s_token s = tok \<and> s_isActive s
                                      then s\<lparr>s_isActive := False, s_lastUsedAt := now\<rparr> else s)
                                (sessions db)\<rparr>"
  have 1: "logoutUser req db now = (logout_ok, ?db')"
    using True t assms
    by (simp add: logoutUser_def logout_ok_def revoke_sessions_def execute_def)
  have 2: "logoutUser req ?db' now' = (logout_ok, ?db')"
    using True t assms
    by (simp add: logoutUser_def logout_ok_def revoke_sessions_def execute_def revoke_twice)
  have 3: "revokes_only (bearer (authorization req)) db ?db'"
    unfolding t by (rule revokes_only_revoke)
  show ?thesis unfolding 1 using 2 3 by simp
qed

text \<open>
  C8. On a reachable store \<open>logoutUser\<close> answers 200 "Logout successful" for every
  Authorization header, whether the presented token has an active session row, only
  revoked rows, or no row at all. It changes nothing but the \<open>isActive\<close> flag and the
  \<open>lastUsedAt\<close> instant of the session rows that hold the presented token, and run again
  on the resulting store it answers 200 and leaves the store as it is. The route
  \<open>POST /api/auth/logout\<close> puts the middleware of middleware/auth.js in front of it, and
  that middleware does not read the sessions: a request it lets through is answered 200,
  and the same request sent again after the logout is answered 200 whenever the
  middleware still lets it through, with the store left as the first logout made it.
\<close>

theorem logout_total_and_idempotent:
  assumes "reachable db"
  shows "fst (logoutUser req db now) = logout_ok
       \<and> status logout_ok = 200
       \<and> revokes_only (bearer (authorization req)) db (snd (logoutUser req db now))
       \<and> logoutUser req (snd (logoutUser req db now)) now'
           = (logout_ok, snd (logoutUser req db now))
       \<and> (\<forall>u. authenticateToken D req db now = Next u \<longrightarrow>
            logout_route D req db now = (logout_ok, snd (logoutUser req db now))
          \<and> (\<forall>u'. authenticateToken D req db now' = Next u' \<longrightarrow>
                logout_route D req (snd (logout_route D req db now)) now'
                  = (logout_ok, snd (logout_route D req db now))))"
proof -
  note h = logoutUser_total_and_idempotent[OF assms, of req now now']
  have s: "status logout_ok = 200"
    by (simp add: logout_ok_def json_def)
  have g: "authenticateToken D req (snd (logoutUser req db now)) now'
             = authenticateToken D req db now'"
  proof -
    from h have "snd (logoutUser req db now)
                   = db\<lparr>sessions := sessions (snd (logoutUser req db now))\<rparr>"
      by (simp add: revokes_only_def)
    then show ?thesis
      by (metis authenticateToken_ignores_sessions)
  qed
  have r: "\<forall>u. authenticateToken D req db now = Next u \<longrightarrow>
            logout_route D req db now = (logout_ok, snd (logoutUser req db now))
          \<and> (\<forall>u'. authenticateToken D req db now' = Next u' \<longrightarrow>
                logout_route D req (snd (logout_route D req db now)) now'
                  = (logout_ok, snd (logout_route D req db now)))"
  proof (intro allI impI)
    fix u
    assume n: "authenticateToken D req db now = Next u"
    have 1: "logout_route D req db now = (logout_ok, snd (logoutUser req db now))"
      using n h by (simp add: logout_route_def prod_eq_iff)
    have 2: "\<forall>u'. authenticateToken D req db now' = Next u' \<longrightarrow>
                logout_route D req (snd (logout_route D req db now)) now'
                  = (logout_ok, snd (logout_route D req db now))"
    proof (intro allI impI)
      fix u'
      assume n': "authenticateToken D req db now' = Next u'"
      show "logout_route D req (snd (logout_route D req db now)) now'
                  = (logout_ok, snd (logout_route D req db now))"
        using 1 g n' h by (simp add: logout_route_def)
    qed
    from 1 2 show "logout_route D req db now = (logout_ok, snd (logoutUser req db now))
          \<and> (\<forall>u'. authenticateToken D req db now' = Next u' \<longrightarrow>
                logout_route D req (snd (logout_route D req db now)) now'
                  = (logout_ok, snd (logout_route D req db now)))"
      by simp
  qed
  from h s r show ?thesis by blast
qed

theorem logout_total_and_idempotent_witness:
  "reachable controller_store
   \<and> authenticateToken deps0 (bearer_request controller_token) controller_store 20
       = Next \<lparr>userId = 1, presented = controller_token\<rparr>
   \<and> authenticateToken deps0 (bearer_request controller_token) controller_store 30
       = Next \<lparr>userId = 1, presented = controller_token\<rparr>
   \<and> status (fst (logout_route deps0 (bearer_request controller_token) controller_store 20))
       = 200
   \<and> map s_isActive
       (sessions (snd (logout_route deps0 (bearer_request controller_token)
                         controller_store 20))) = [False]
   \<and> logout_route deps0 (bearer_request controller_token)
       (snd (logout_route deps0 (bearer_request controller_token) controller_store 20)) 30
       = (logout_ok,
          snd (logout_route deps0 (bearer_request controller_token) controller_store 20))"
proof -
  have h: "reachable controller_store"
    by (simp add: controller_store_def store_with_def)
  have n: "authenticateToken deps0 (bearer_request controller_token) controller_store 20
             = Next \<lparr>userId = 1, presented = controller_token\<rparr>"
    by (simp add: authenticateToken_def bearer_request_def request_with_def
          controller_store_def store_with_def session_of_def controller_token_def
          execute_def JWT_SECRET_def deps0_def alice_def new_user_def)
  have n': "authenticateToken deps0 (bearer_request controller_token) controller_store 30
             = Next \<lparr>userId = 1, presented = controller_token\<rparr>"
    by (simp add: authenticateToken_def bearer_request_def request_with_def
          controller_store_def store_with_def session_of_def controller_token_def
          execute_def JWT_SECRET_def deps0_def alice_def new_user_def)
  have l: "map s_isActive
             (sessions (snd (logoutUser (bearer_request controller_token) controller_store 20)))
             = [False]"
    by (simp add: logoutUser_def bearer_request_def request_with_def
          controller_store_def store_with_def session_of_def controller_token_def
          revoke_sessions_def execute_def)
  note t = logout_total_and_idempotent
             [OF h, of "bearer_request controller_token" 20 30 deps0]
  from t n have 1: "logout_route deps0 (bearer_request controller_token) controller_store 20
             = (logout_ok, snd (logoutUser (bearer_request controller_token)
                                  controller_store 20))"
    by blast
  from t n n' have 2: "logout_route deps0 (bearer_request controller_token)
       (snd (logout_route deps0 (bearer_request controller_token) controller_store 20)) 30
       = (logout_ok,
          snd (logout_route deps0 (bearer_request controller_token) controller_store 20))"
    by blast
  from t have 3: "status logout_ok = 200" by blast
  show ?thesis using h n n' l 1 2 3 by simp
qed

section \<open>Refresh\<close>

lemma generateToken_Some:
  "timespan D (JWT_EXPIRES_IN D) = Some span \<Longrightarrow>
     generateToken D uid t0 = Inr (Jwt uid None t0 (t0 + span) (JWT_SECRET D))"
  by (simp add: generateToken_def jwt_sign_def)

lemma filter_rewritten:
  "filter (\<lambda>s. s_userId s = uid \<and> s_isActive s \<and> s_token s \<noteq> new)
     (map (\<lambda>s. if s_userId s = uid \<and> s_isActive s
               then s\<lparr>s_token := new, s_lastUsedAt := now\<rparr> else s) xs) = []"
proof (induction xs)
  case Nil
  show ?case by simp
next
  case (Cons a xs)
  then show ?case by (cases "s_userId a = uid"; cases "s_isActive a") simp_all
qed

lemma map_isActive_rewritten:
  "map s_isActive
     (map (\<lambda>s. if s_userId s = uid \<and> s_isActive s
               then s\<lparr>s_token := new, s_lastUsedAt := now\<rparr> else s) xs)
   = map s_isActive xs"
  by (induction xs) simp_all

text \<open>
  C6, as amended. For every refresh request on a reachable store whose Bearer token
  passes \<open>jwt.verify\<close> and whose user is still active, \<open>refreshToken\<close> answers 200 with a
  newly signed token and writes that token, with the current instant as
  \<open>lastUsedAt\<close>, into every active session row of the user: no row is inserted, no
  \<open>isActive\<close> flag changes, and afterwards every active session row of the user holds
  the new token.
\<close>

theorem refresh_overwrites_active_sessions:
  assumes "startsWith_Bearer (authorization req)" and "bearer (authorization req) = Some tok"
    and "jwt_verify tok (JWT_SECRET D) now = Inr dec"
    and "reachable db"
    and "filter (\<lambda>u. u_id u = d_userId dec \<and> u_isActive u) (users db) \<noteq> []"
    and "timespan D (JWT_EXPIRES_IN D) = Some span"
  shows "\<exists>new db'. new = Jwt (d_userId dec) None now (now + span) (JWT_SECRET D)
      \<and> refreshToken D req db now = ((json 200)\<lparr>success := Some True, token := Some new\<rparr>, db')
      \<and> db' = db\<lparr>sessions :=
                  map (\<lambda>s. if s_userId s = d_userId dec \<and> s_isActive s
                            then s\<lparr>s_token := new, s_lastUsedAt := now\<rparr> else s) (sessions db)\<rparr>
      \<and> length (sessions db') = length (sessions db)
      \<and> map s_isActive (sessions db') = map s_isActive (sessions db)
      \<and> filter (\<lambda>s. s_userId s = d_userId dec \<and> s_isActive s \<and> s_token s \<noteq> new)
           (sessions db') = []"
proof -
  obtain u us where
    us: "filter (\<lambda>u. u_id u = d_userId dec \<and> u_isActive u) (users db) = u # us"
    using assms(5)
    by (cases "filter (\<lambda>u. u_id u = d_userId dec \<and> u_isActive u) (users db)") auto
  have "refreshToken D req db now =
          ((json 200)\<lparr>success := Some True,
              token := Some (Jwt (d_userId dec) None now (now + span) (JWT_SECRET D))\<rparr>,
           db\<lparr>sessions :=
                  map (\<lambda>s. if s_userId s = d_userId dec \<and> s_isActive s
                            then s\<lparr>s_token :=
                                    Jwt (d_userId dec) None now (now + span) (JWT_SECRET D),
                                  s_lastUsedAt := now\<rparr> else s) (sessions db)\<rparr>)"
    using assms(1-4) us generateToken_Some[OF assms(6)]
    by (simp add: refreshToken_def execute_def update_sessions_def)
  then show ?thesis
    by (simp add: filter_rewritten map_isActive_rewritten)
qed

theorem refresh_overwrites_active_sessions_witness:
  "startsWith_Bearer (authorization (bearer_request old_token))
   \<and> reachable refresh_store
   \<and> fst (refreshToken deps_shared (bearer_request old_token) refresh_store 50)
       = (json 200)\<lparr>success := Some True, token := Some refreshed_token\<rparr>
   \<and> length (sessions (snd (refreshToken deps_shared (bearer_request old_token) refresh_store 50)))
       = length (sessions refresh_store)"
proof -
  have h1: "startsWith_Bearer (authorization (bearer_request old_token))"
    by (simp add: bearer_request_def request_with_def)
  have h2: "bearer (authorization (bearer_request old_token)) = Some old_token"
    by (simp add: bearer_request_def request_with_def)
  have h3: "jwt_verify old_token (JWT_SECRET deps_shared) 50 =
              Inr \<lparr>d_userId = 1, d_email = Some (js ''a@x.com''), d_iat = 10, d_exp = 604810\<rparr>"
    by (simp add: old_token_def JWT_SECRET_def deps_shared_def deps0_def)
  have h4: "reachable refresh_store"
    by (simp add: refresh_store_def store_with_def)
  have h5: "filter (\<lambda>u. u_id u =
                d_userId \<lparr>d_userId = 1, d_email = Some (js ''a@x.com''), d_iat = 10, d_exp = 604810\<rparr>
              \<and> u_isActive u) (users refresh_store) \<noteq> []"
    by (simp add: refresh_store_def store_with_def alice_def new_user_def)
  have h6: "timespan deps_shared (JWT_EXPIRES_IN deps_shared) = Some 604800"
    by (simp add: JWT_EXPIRES_IN_def deps_shared_def deps0_def)
  have s: "JWT_SECRET deps_shared = ''s3cret''"
    by (simp add: JWT_SECRET_def deps_shared_def deps0_def)
  from refresh_overwrites_active_sessions[OF h1 h2 h3 h4 h5 h6]
  obtain new db' where
    n: "new = Jwt 1 None 50 (50 + 604800) (JWT_SECRET deps_shared)"
    and r: "refreshToken deps_shared (bearer_request old_token) refresh_store 50
              = ((json 200)\<lparr>success := Some True, token := Some new\<rparr>, db')"
    and l: "length (sessions db') = length (sessions refresh_store)"
    by auto
  show ?thesis using h1 h4 n r l s by (simp add: refreshed_token_def)
qed

text \<open>
  The claim as stated fails: the refresh inserts no session row, and the row that held
  the old token holds the new one afterwards, so the gateway of server.js, which accepted
  the old token before the refresh, rejects it after.
\<close>

theorem refresh_inserts_no_session_and_drops_old_token:
  "length (sessions refresh_store) = 1
   \<and> fst (refreshToken deps_shared (bearer_request old_token) refresh_store 50)
       = (json 200)\<lparr>success := Some True, token := Some refreshed_token\<rparr>
   \<and> length (sessions (snd (refreshToken deps_shared (bearer_request old_token) refresh_store 50)))
       = 1
   \<and> map s_token
       (sessions (snd (refreshToken deps_shared (bearer_request old_token) refresh_store 50)))
       = [refreshed_token]
   \<and> fst (server_authenticateToken deps_shared (bearer_request old_token) refresh_store 60)
       = Next (\<lparr>d_userId = 1, d_email = Some (js ''a@x.com''), d_iat = 10, d_exp = 604810\<rparr>, 1)
   \<and> fst (server_authenticateToken deps_shared (bearer_request old_token)
            (snd (refreshToken deps_shared (bearer_request old_token) refresh_store 50)) 60)
       = Rejected (json_error 403 ''Invalid or expired token'')"
  by (simp add: refreshToken_def server_authenticateToken_def bearer_request_def request_with_def
        refresh_store_def store_with_def session_of_def old_token_def refreshed_token_def
        update_sessions_def execute_def JWT_SECRET_def server_JWT_SECRET_def deps_shared_def
        deps0_def alice_def new_user_def generateToken_def JWT_EXPIRES_IN_def jwt_sign_def
        seven_days_def)

section \<open>Login\<close>

lemma ascii_lower_examples:
  "ascii_lower (js ''A@x.com'') = js ''a@x.com''"
  "ascii_lower (js ''a@x.com'') = js ''a@x.com''"
  "ascii_lower (js ''b@x.com'') = js ''b@x.com''"
  "ascii_lower (js ''nobody@x.com'') = js ''nobody@x.com''"
  by (simp_all add: ascii_lower_def js_def)

lemma toLowerCase_examples:
  "toLowerCase deps0 (js ''A@x.com'') = js ''a@x.com''"
  "toLowerCase deps0 (js ''a@x.com'') = js ''a@x.com''"
  "toLowerCase deps0 (js ''b@x.com'') = js ''b@x.com''"
  "toLowerCase deps0 (js ''nobody@x.com'') = js ''nobody@x.com''"
  by (simp_all add: deps0_def ascii_lower_examples)

text \<open>
  C3. On a reachable store, a login with the email of an existing user and a wrong
  password, and a login with an email no user has, get the same response: \<open>loginUser\<close>
  answers both with 401 "Invalid credentials" / "Email or password is incorrect", the
  handler of server.js answers both with 400 "Invalid credentials"; neither changes the
  store.
\<close>

theorem login_failures_indistinguishable:
  assumes "reachable db"
    and "b_email r1 = Some e1" and "b_password r1 = Some p1"
    and "b_email r2 = Some e2" and "b_password r2 = Some p2"
  shows "(e1 \<noteq> [] \<and> p1 \<noteq> [] \<and> e2 \<noteq> [] \<and> p2 \<noteq> []
          \<and> wrong_password D (\<lambda>u. u_email u = toLowerCase D e1) p1 db
          \<and> unknown (\<lambda>u. u_email u = toLowerCase D e2) db
          \<longrightarrow> loginUser D r1 db t1 = (invalid_credentials, db)
            \<and> loginUser D r2 db t2 = (invalid_credentials, db))
       \<and> (wrong_password D (\<lambda>u. u_email u = e1 \<and> u_isActive u) p1 db
          \<and> unknown (\<lambda>u. u_email u = e2 \<and> u_isActive u) db
          \<longrightarrow> server_login D r1 db t1 = (json_error 400 ''Invalid credentials'', db)
            \<and> server_login D r2 db t2 = (json_error 400 ''Invalid credentials'', db))"
proof (intro conjI impI)
  assume a: "e1 \<noteq> [] \<and> p1 \<noteq> [] \<and> e2 \<noteq> [] \<and> p2 \<noteq> []
          \<and> wrong_password D (\<lambda>u. u_email u = toLowerCase D e1) p1 db
          \<and> unknown (\<lambda>u. u_email u = toLowerCase D e2) db"
  then obtain u us where
    f: "filter (\<lambda>u. u_email u = toLowerCase D e1) (users db) = u # us"
    and w: "\<not> bcrypt_compare D p1 (u_password u)"
    by (cases "filter (\<lambda>u. u_email u = toLowerCase D e1) (users db)")
       (simp_all add: wrong_password_def)
  show "loginUser D r1 db t1 = (invalid_credentials, db)"
    using assms a f w by (simp add: loginUser_def execute_def)
  show "loginUser D r2 db t2 = (invalid_credentials, db)"
    using assms a by (simp add: loginUser_def execute_def unknown_def)
next
  assume a: "wrong_password D (\<lambda>u. u_email u = e1 \<and> u_isActive u) p1 db
          \<and> unknown (\<lambda>u. u_email u = e2 \<and> u_isActive u) db"
  then obtain u us where
    f: "filter (\<lambda>u. u_email u = e1 \<and> u_isActive u) (users db) = u # us"
    and w: "\<not> bcrypt_compare D p1 (u_password u)"
    by (cases "filter (\<lambda>u. u_email u = e1 \<and> u_isActive u) (users db)")
       (simp_all add: wrong_password_def)
  show "server_login D r1 db t1 = (json_error 400 ''Invalid credentials'', db)"
    using assms a f w by (simp add: server_login_def execute_def)
  show "server_login D r2 db t2 = (json_error 400 ''Invalid credentials'', db)"
    using assms a by (simp add: server_login_def execute_def unknown_def)
qed

theorem login_failures_indistinguishable_witness:
  "reachable (store_with [alice] [])
   \<and> wrong_password deps0 (\<lambda>u. u_email u = toLowerCase deps0 (js ''A@x.com'')) (js ''guess123'') (store_with [alice] [])
   \<and> unknown (\<lambda>u. u_email u = toLowerCase deps0 (js ''nobody@x.com'')) (store_with [alice] [])
   \<and> fst (loginUser deps0 (login_request ''A@x.com'' ''guess123'') (store_with [alice] []) 5)
       = invalid_credentials
   \<and> fst (loginUser deps0 (login_request ''nobody@x.com'' ''guess123'') (store_with [alice] []) 6)
       = invalid_credentials
   \<and> fst (server_login deps0 (login_request ''a@x.com'' ''guess123'') (store_with [alice] []) 5)
       = fst (server_login deps0 (login_request ''nobody@x.com'' ''guess123'') (store_with [alice] []) 6)"
proof -
  let ?db = "store_with [alice] []"
  have h: "reachable ?db" by (simp add: store_with_def)
  note l1 = toLowerCase_examples(1) and l2 = toLowerCase_examples(4)
  have w: "wrong_password deps0 (\<lambda>u. u_email u = toLowerCase deps0 (js ''A@x.com'')) (js ''guess123'') ?db"
    by (simp add: l1 wrong_password_def store_with_def alice_def new_user_def)
       (simp add: deps0_def)
  have n: "unknown (\<lambda>u. u_email u = toLowerCase deps0 (js ''nobody@x.com'')) ?db"
    by (simp add: l2 unknown_def store_with_def alice_def new_user_def)
  have ws: "wrong_password deps0 (\<lambda>u. u_email u = js ''a@x.com'' \<and> u_isActive u) (js ''guess123'') ?db"
    by (simp add: wrong_password_def store_with_def alice_def new_user_def deps0_def)
  have ns: "unknown (\<lambda>u. u_email u = js ''nobody@x.com'' \<and> u_isActive u) ?db"
    by (simp add: unknown_def store_with_def alice_def new_user_def)
  have c: "fst (loginUser deps0 (login_request ''A@x.com'' ''guess123'') ?db 5) = invalid_credentials
       \<and> fst (loginUser deps0 (login_request ''nobody@x.com'' ''guess123'') ?db 6) = invalid_credentials"
    using w n
      login_failures_indistinguishable[OF h,
        of "login_request ''A@x.com'' ''guess123''" "js ''A@x.com''" "js ''guess123''"
           "login_request ''nobody@x.com'' ''guess123''" "js ''nobody@x.com''" "js ''guess123''"
           deps0 5 6]
    by (simp add: login_request_def request_with_def)
  have s: "fst (server_login deps0 (login_request ''a@x.com'' ''guess123'') ?db 5)
       = fst (server_login deps0 (login_request ''nobody@x.com'' ''guess123'') ?db 6)"
    using ws ns
      login_failures_indistinguishable[OF h,
        of "login_request ''a@x.com'' ''guess123''" "js ''a@x.com''" "js ''guess123''"
           "login_request ''nobody@x.com'' ''guess123''" "js ''nobody@x.com''" "js ''guess123''"
           deps0 5 6]
    by (simp add: login_request_def request_with_def)
  show ?thesis using h w n c s by simp
qed

text \<open>
  C7 fails on \<open>loginUser\<close>, whose lookup has no \<open>isActive\<close> condition: with the right
  password the deactivated Bob is answered 200 and a token. The handler of server.js,
  whose lookup has the condition, answers the same request like an unknown email.
\<close>

theorem deactivated_user_logs_in:
  "u_isActive bob = False
   \<and> fst (loginUser deps0 (login_request ''b@x.com'' ''pw123456'') (store_with [bob] []) 100)
       = (json 200)\<lparr>success := Some True, message := Some ''Login successful'',
            user_id := Some 2, token := Some (Jwt 2 None 100 604900 ''your-fallback-secret''),
            redirectTo := Some ''/role-selection''\<rparr>
   \<and> fst (server_login deps0 (login_request ''b@x.com'' ''pw123456'') (store_with [bob] []) 100)
       = json_error 400 ''Invalid credentials''"
  by (simp add: loginUser_def server_login_def login_request_def request_with_def store_with_def
        bob_def new_user_def deps0_def execute_def ascii_lower_examples
        generateToken_def JWT_EXPIRES_IN_def JWT_SECRET_def jwt_sign_def default_cols_def)

section \<open>Registration\<close>

lemma status_simps [simp]:
  "status (json st) = st" "status (json_error st e) = st"
  "status (json_error_message st e m) = st"
  by (simp_all add: json_def json_error_def json_error_message_def)

lemma status_register_catch: "status (register_catch e) \<noteq> 201"
  by (simp add: register_catch_def user_exists_def)

lemma insert_user_Inr:
  assumes "insert_user (Some e) pw row db = Inr (uid, db')"
  shows "reachable db' \<and> filter (\<lambda>u. u_email u = e) (users db') \<noteq> []"
  using assms
  by (simp add: insert_user_def split: if_splits)
     (auto simp: filter_empty_conv)

lemma insert_user_dup:
  assumes "reachable db" and "filter (\<lambda>u. u_email u = e) (users db) \<noteq> []"
  shows "insert_user (Some e) (Some h) row db = Inl ER_DUP_ENTRY"
  using assms by (simp add: insert_user_def)

lemma register_create_201:
  assumes "register_create D f l e p db t = (resp, db')" and "status resp = 201"
  shows "reachable db' \<and> filter (\<lambda>u. u_email u = toLowerCase D e) (users db') \<noteq> []"
proof (cases "insert_user (Some (toLowerCase D e)) (Some (bcrypt_hash D p))
             (new_user\<lparr>u_cols := default_cols(''firstName'' \<mapsto> JStr (trim f),
                            ''lastName'' \<mapsto> JStr (trim l), ''role'' \<mapsto> JNull)\<rparr>) db")
  case (Inl x)
  then show ?thesis using assms status_register_catch[of x]
    by (auto simp add: register_create_def)
next
  case (Inr pr)
  obtain uid db1 where pr: "pr = (uid, db1)" by (cases pr)
  have d: "db' = db1"
    using assms(1) Inr pr
    by (simp add: register_create_def split: sum.splits)
  show ?thesis using insert_user_Inr[OF Inr[unfolded pr]] d by simp
qed

lemma registerUser_201:
  assumes "registerUser D r db t = (resp, db')" and "status resp = 201"
  shows "reachable db'
       \<and> filter (\<lambda>u. u_email u = toLowerCase D (the (b_email r))) (users db') \<noteq> []"
proof -
  have v: "valid_registration r"
    using assms by (auto simp add: registerUser_def valid_registration_def split: if_splits)
  have "register_create D (the (b_firstName r)) (the (b_lastName r)) (the (b_email r))
          (the (b_password r)) db t = (resp, db')"
    using assms v status_register_catch
    by (auto simp add: registerUser_def valid_registration_def user_exists_def
          split: sum.splits list.splits)
  from register_create_201[OF this assms(2)] show ?thesis .
qed

lemma registerUser_existing:
  assumes "valid_registration r" and "reachable db"
    and "filter (\<lambda>u. u_email u = toLowerCase D (the (b_email r))) (users db) \<noteq> []"
  shows "registerUser D r db t = (user_exists, db)"
proof -
  obtain u us where
    "filter (\<lambda>u. u_email u = toLowerCase D (the (b_email r))) (users db) = u # us"
    using assms(3)
    by (cases "filter (\<lambda>u. u_email u = toLowerCase D (the (b_email r))) (users db)") auto
  then show ?thesis using assms(1,2)
    by (simp add: registerUser_def valid_registration_def execute_def)
qed

lemma register_create_existing:
  assumes "reachable db" and "filter (\<lambda>u. u_email u = toLowerCase D e) (users db) \<noteq> []"
  shows "register_create D f l e p db t = (user_exists, db)"
  using insert_user_dup[OF assms]
  by (simp add: register_create_def register_catch_def)

text \<open>
  C2. After a registration that \<open>registerUser\<close> answered 201, a valid registration whose
  email has the same lower-case form is answered 409 "User already exists" and leaves
  the store as it is: both when the existence check of \<open>registerUser\<close> finds the row, and
  when the check ran before the first registration's insert and the insert of the second
  runs into the unique constraint on \<open>email\<close>. The same holds of the route
  \<open>POST /api/auth/register\<close> for two requests that pass its validation chain.
\<close>

theorem duplicate_registration_conflict:
  "(registerUser D r1 db t1 = (resp1, db1) \<and> status resp1 = 201 \<and> valid_registration r2
      \<and> toLowerCase D (the (b_email r2)) = toLowerCase D (the (b_email r1))
    \<longrightarrow> status user_exists = 409
        \<and> registerUser D r2 db1 t2 = (user_exists, db1)
        \<and> register_create D (the (b_firstName r2)) (the (b_lastName r2)) (the (b_email r2))
            (the (b_password r2)) db1 t2 = (user_exists, db1))
   \<and> (register_route D q1 db t1 = (resp1, db1) \<and> status resp1 = 201
      \<and> validateRegistration D q1 = Inr r1 \<and> validateRegistration D q2 = Inr r2
      \<and> valid_registration r2
      \<and> toLowerCase D (the (b_email r2)) = toLowerCase D (the (b_email r1))
    \<longrightarrow> register_route D q2 db1 t2 = (user_exists, db1))"
proof -
  have A: "registerUser D r2 db1 t2 = (user_exists, db1)
        \<and> register_create D (the (b_firstName r2)) (the (b_lastName r2)) (the (b_email r2))
            (the (b_password r2)) db1 t2 = (user_exists, db1)"
    if a: "registerUser D r1 db t1 = (resp1, db1)" "status resp1 = 201" "valid_registration r2"
      "toLowerCase D (the (b_email r2)) = toLowerCase D (the (b_email r1))"
  proof -
    from registerUser_201[OF a(1,2)] a(4)
    have r: "reachable db1"
      and f: "filter (\<lambda>u. u_email u = toLowerCase D (the (b_email r2))) (users db1) \<noteq> []"
      by simp_all
    show ?thesis
      using registerUser_existing[OF a(3) r f] register_create_existing[OF r f] by simp
  qed
  have s: "status user_exists = 409" by (simp add: user_exists_def)
  have B: "register_route D q2 db1 t2 = (user_exists, db1)"
    if b: "register_route D q1 db t1 = (resp1, db1)" "status resp1 = 201"
      "validateRegistration D q1 = Inr r1" "validateRegistration D q2 = Inr r2"
      "valid_registration r2"
      "toLowerCase D (the (b_email r2)) = toLowerCase D (the (b_email r1))"
  proof -
    have "registerUser D r1 db t1 = (resp1, db1)"
      using b(1,3) by (simp add: register_route_def)
    from A[OF this b(2,5,6)] show ?thesis
      using b(4) by (simp add: register_route_def)
  qed
  from A s B show ?thesis by blast
qed

theorem duplicate_registration_conflict_witness:
  "valid_registration (register_request ''A'' ''B'' ''A@x.com'' ''pw123456'')
   \<and> status (fst (register_route deps0 (register_request ''A'' ''B'' ''a@x.com'' ''pw123456'')
                 empty_store 0)) = 201
   \<and> status (fst (register_route deps0 (register_request ''A'' ''B'' ''A@x.com'' ''pw123456'')
                 (snd (register_route deps0
                         (register_request ''A'' ''B'' ''a@x.com'' ''pw123456'')
                         empty_store 0)) 1)) = 409
   \<and> length (users (snd (register_route deps0
                            (register_request ''A'' ''B'' ''A@x.com'' ''pw123456'')
                 (snd (register_route deps0
                         (register_request ''A'' ''B'' ''a@x.com'' ''pw123456'')
                         empty_store 0)) 1))) = 1"
proof -
  let ?r1 = "register_request ''A'' ''B'' ''a@x.com'' ''pw123456''"
  let ?r2 = "register_request ''A'' ''B'' ''A@x.com'' ''pw123456''"
  let ?db1 = "snd (register_route deps0 ?r1 empty_store 0)"
  have re: "emailRegex_test (js ''A@x.com'')" "emailRegex_test (js ''a@x.com'')"
    by (simp_all add: emailRegex_test_def js_def at_sign_def full_stop_def plain_char_def
          is_space_def)
  have v: "valid_registration ?r2"
    by (simp add: valid_registration_def register_request_def request_with_def re)
  have q: "validateRegistration deps0 ?r1 = Inr ?r1" "validateRegistration deps0 ?r2 = Inr ?r2"
    by (simp_all add: deps0_def)
  have s: "status (fst (register_route deps0 ?r1 empty_store 0)) = 201
         \<and> length (users ?db1) = 1"
    by (simp add: register_route_def registerUser_def register_create_def register_request_def
          request_with_def empty_store_def re ascii_lower_examples execute_def insert_user_def
          generateToken_def deps0_def JWT_EXPIRES_IN_def new_user_def social_clash_def)
  have e: "toLowerCase deps0 (the (b_email ?r2)) = toLowerCase deps0 (the (b_email ?r1))"
    by (simp add: register_request_def request_with_def toLowerCase_examples)
  from duplicate_registration_conflict
         [of deps0 ?r1 empty_store 0 "fst (register_route deps0 ?r1 empty_store 0)"
             ?db1 ?r2 1 ?r1 ?r2, THEN conjunct2]
       v s q e
  have "register_route deps0 ?r2 ?db1 1 = (user_exists, ?db1)"
    by simp
  then show ?thesis using v s by (simp add: user_exists_def)
qed

section \<open>Social identity\<close>

lemma linked_rows:
  assumes "filter (\<lambda>u. u_socialId u = Some sid \<and> u_socialProvider u = Some prov) xs = []"
  shows "filter (\<lambda>u. u_socialId u = Some sid \<and> u_socialProvider u = Some prov)
           (map (\<lambda>u. if u_id u = i
                      then u\<lparr>u_socialId := Some sid, u_socialProvider := Some prov,
                             u_avatar := Some photo\<rparr>
                      else u) xs)
         = map (\<lambda>u. u\<lparr>u_socialId := Some sid, u_socialProvider := Some prov,
                        u_avatar := Some photo\<rparr>)
             (filter (\<lambda>u. u_id u = i) xs)"
  using assms
proof (induction xs)
  case Nil
  show ?case by simp
next
  case (Cons a xs)
  then show ?case by (cases "u_id a = i") (simp_all split: if_splits)
qed

lemma head_in_set:
  assumes "filter P xs = y # ys"
  shows "y \<in> set xs \<and> P y"
proof -
  have "y \<in> set (filter P xs)" using assms by simp
  then show ?thesis by simp
qed

lemma filter_id_nonempty:
  "eu \<in> set xs \<Longrightarrow> \<exists>u us. filter (\<lambda>u. u_id u = u_id eu) xs = u # us \<and> u_id u = u_id eu"
proof (induction xs)
  case Nil
  then show ?case by simp
next
  case (Cons a xs)
  then show ?case by (cases "u_id a = u_id eu") auto
qed

lemma findOrCreateUser_found:
  assumes "reachable db"
    and "filter (\<lambda>u. u_socialId u = Some (p_id p) \<and> u_socialProvider u = Some prov) (users db)
           = u # us"
  shows "findOrCreateUser p prov db = (Inr (Some u), db)"
  using assms by (simp add: findOrCreateUser_def execute_def)

lemma findOrCreateUser_reachable:
  assumes "findOrCreateUser p prov db = (Inr r, db1)"
  shows "reachable db"
proof (rule ccontr)
  assume "\<not> reachable db"
  then have "findOrCreateUser p prov db = (Inl StoreUnreachable, db)"
    by (simp add: findOrCreateUser_def execute_def)
  with assms show False by simp
qed

lemma findOrCreateUser_again:
  assumes "findOrCreateUser p prov db = (Inr (Some u1), db1)"
  shows "\<exists>u2. findOrCreateUser p prov db1 = (Inr (Some u2), db1) \<and> u_id u2 = u_id u1
              \<and> length (users db1) \<le> length (users db) + 1"
proof -
  let ?sel = "\<lambda>u. u_socialId u = Some (p_id p) \<and> u_socialProvider u = Some prov"
  have r: "reachable db" using findOrCreateUser_reachable[OF assms] .
  show ?thesis
  proof (cases "filter ?sel (users db)")
    case (Cons u us)
    from findOrCreateUser_found[OF r Cons] assms
    have "u1 = u" "db1 = db" by auto
    then show ?thesis using findOrCreateUser_found[OF r Cons] by simp
  next
    case Nil
    let ?lookup = "if falsy (first_value (p_emails p)) then Inr []
                 else execute db
                        (filter (\<lambda>u. u_email u = the (first_value (p_emails p))) (users db))"
    show ?thesis
    proof (cases ?lookup)
      case (Inl e)
      then have "findOrCreateUser p prov db = (Inl e, db)"
        using r Nil by (simp add: findOrCreateUser_def execute_def)
      with assms show ?thesis by simp
    next
      case (Inr rows)
      show ?thesis
      proof (cases rows)
        case (Cons eu emailUsers)
        have mem: "eu \<in> set (users db)"
          using Inr Cons r by (cases "falsy (first_value (p_emails p))")
             (auto simp add: execute_def dest: head_in_set)
        show ?thesis
        proof (cases "first_value (p_photos p)")
          case None
          then have "findOrCreateUser p prov db = (Inl BindUndefined, db)"
            using r Nil Inr Cons by (simp add: findOrCreateUser_def execute_def)
          with assms show ?thesis by simp
        next
          case (Some photo)
          let ?db' = "db\<lparr>users := map (\<lambda>u. if u_id u = u_id eu
                      then u\<lparr>u_socialId := Some (p_id p), u_socialProvider := Some prov,
                             u_avatar := Some photo\<rparr>
                      else u) (users db)\<rparr>"
          have "findOrCreateUser p prov db = (Inr (Some eu), ?db')"
            using r Nil Inr Cons Some
            by (simp add: findOrCreateUser_def execute_def update_users_def)
          with assms have e: "u1 = eu" "db1 = ?db'" by auto
          from filter_id_nonempty[OF mem] obtain u us where
            f: "filter (\<lambda>u. u_id u = u_id eu) (users db) = u # us" "u_id u = u_id eu" by blast
          have "filter ?sel (users ?db')
                  = u\<lparr>u_socialId := Some (p_id p), u_socialProvider := Some prov,
                             u_avatar := Some photo\<rparr>
                    # map (\<lambda>u. u\<lparr>u_socialId := Some (p_id p), u_socialProvider := Some prov,
                        u_avatar := Some photo\<rparr>) us"
            using linked_rows[OF Nil, of "u_id eu" photo] f by simp
          from findOrCreateUser_found[OF _ this, of ] r
          have "findOrCreateUser p prov ?db'
                  = (Inr (Some (u\<lparr>u_socialId := Some (p_id p), u_socialProvider := Some prov,
                             u_avatar := Some photo\<rparr>)), ?db')"
            by simp
          then show ?thesis using e f by simp
        qed
      next
        case Nil2: Nil
        let ?row = "new_user\<lparr>u_socialId := Some (p_id p), u_socialProvider := Some prov,
                          u_avatar := (if falsy (first_value (p_photos p)) then None
                                       else first_value (p_photos p)),
                          u_emailVerified := True,
                          u_cols := default_cols
                            (''firstName'' \<mapsto>
                               JStr (or_empty (p_givenName p) (displayName_word p 0)),
                             ''lastName'' \<mapsto>
                               JStr (or_empty (p_familyName p) (displayName_word p 1)),
                             ''profileSetup'' \<mapsto> JNum 0)\<rparr>"
        show ?thesis
        proof (cases "insert_user (first_value (p_emails p)) None ?row db")
          case (Inl e)
          then have "findOrCreateUser p prov db = (Inl e, db)"
            using r Nil Inr Nil2 by (simp add: findOrCreateUser_def execute_def)
          with assms show ?thesis by simp
        next
          case ins: (Inr pr)
          obtain insertId db' where pr: "pr = (insertId, db')" by (cases pr)
          from ins pr obtain e where
            em: "first_value (p_emails p) = Some e"
            and i: "insertId = nextUserId db"
            and d: "db' = db\<lparr>users := users db @
                       [?row\<lparr>u_id := nextUserId db, u_email := e, u_password := []\<rparr>],
                    nextUserId := nextUserId db + 1\<rparr>"
            by (auto simp add: insert_user_def split: if_splits option.splits)
          let ?new = "?row\<lparr>u_id := nextUserId db, u_email := e, u_password := []\<rparr>"
          have r': "reachable db'" using r d by simp
          have sel_new: "filter ?sel (users db') = [?new]"
            using Nil d by simp
          obtain v vs where
            byid: "filter (\<lambda>u. u_id u = insertId) (users db') = v # vs" "u_id v = insertId"
          proof (cases "filter (\<lambda>u. u_id u = insertId) (users db)")
            case Nil
            then have "filter (\<lambda>u. u_id u = insertId) (users db') = [?new]"
              using d i by simp
            then show ?thesis using that[of ?new "[]"] i by simp
          next
            case (Cons a as)
            then have "filter (\<lambda>u. u_id u = insertId) (users db') = a # (as @ [?new])"
              using d i by simp
            moreover have "u_id a = insertId"
              using head_in_set[OF Cons] by simp
            ultimately show ?thesis using that by blast
          qed
          have "findOrCreateUser p prov db = (Inr (Some v), db')"
            using r Nil Inr Nil2 ins pr byid r'
            by (simp add: findOrCreateUser_def execute_def)
          with assms have e1: "u1 = v" "db1 = db'" by auto
          have "findOrCreateUser p prov db' = (Inr (Some ?new), db')"
            using findOrCreateUser_found[OF r' sel_new] .
          then show ?thesis using e1 byid i d by simp
        qed
      qed
    qed
  qed
qed


lemma findOrCreateUser_failure:
  assumes "findOrCreateUser p prov db = (r, db1)"
  shows "r \<noteq> Inr None \<and> (\<forall>e. r = Inl e \<longrightarrow> db1 = db)"
proof (cases "reachable db")
  case False
  then have "findOrCreateUser p prov db = (Inl StoreUnreachable, db)"
    by (simp add: findOrCreateUser_def execute_def)
  with assms show ?thesis by auto
next
  case r: True
  let ?sel = "\<lambda>u. u_socialId u = Some (p_id p) \<and> u_socialProvider u = Some prov"
  show ?thesis
  proof (cases "filter ?sel (users db)")
    case (Cons u us)
    from findOrCreateUser_found[OF r Cons] assms show ?thesis by auto
  next
    case Nil
    let ?lookup = "if falsy (first_value (p_emails p)) then Inr []
                 else execute db
                        (filter (\<lambda>u. u_email u = the (first_value (p_emails p))) (users db))"
    show ?thesis
    proof (cases ?lookup)
      case (Inl e)
      then have "findOrCreateUser p prov db = (Inl e, db)"
        using r Nil by (simp add: findOrCreateUser_def execute_def)
      with assms show ?thesis by auto
    next
      case (Inr rows)
      show ?thesis
      proof (cases rows)
        case (Cons eu emailUsers)
        show ?thesis
        proof (cases "first_value (p_photos p)")
          case None
          then have "findOrCreateUser p prov db = (Inl BindUndefined, db)"
            using r Nil Inr Cons by (simp add: findOrCreateUser_def execute_def)
          with assms show ?thesis by auto
        next
          case (Some photo)
          have "fst (findOrCreateUser p prov db) = Inr (Some eu)"
            using r Nil Inr Cons Some
            by (simp add: findOrCreateUser_def execute_def update_users_def)
          with assms show ?thesis by auto
        qed
      next
        case Nil2: Nil
        let ?row = "new_user\<lparr>u_socialId := Some (p_id p), u_socialProvider := Some prov,
                          u_avatar := (if falsy (first_value (p_photos p)) then None
                                       else first_value (p_photos p)),
                          u_emailVerified := True,
                          u_cols := default_cols
                            (''firstName'' \<mapsto>
                               JStr (or_empty (p_givenName p) (displayName_word p 0)),
                             ''lastName'' \<mapsto>
                               JStr (or_empty (p_familyName p) (displayName_word p 1)),
                             ''profileSetup'' \<mapsto> JNum 0)\<rparr>"
        show ?thesis
        proof (cases "insert_user (first_value (p_emails p)) None ?row db")
          case (Inl e)
          then have "findOrCreateUser p prov db = (Inl e, db)"
            using r Nil Inr Nil2 by (simp add: findOrCreateUser_def execute_def)
          with assms show ?thesis by auto
        next
          case ins: (Inr pr)
          obtain insertId db' where pr: "pr = (insertId, db')" by (cases pr)
          from ins pr obtain e where
            i: "insertId = nextUserId db"
            and d: "db' = db\<lparr>users := users db @
                       [?row\<lparr>u_id := nextUserId db, u_email := e, u_password := []\<rparr>],
                    nextUserId := nextUserId db + 1\<rparr>"
            by (auto simp add: insert_user_def split: if_splits option.splits)
          have r': "reachable db'" using r d by simp
          have "filter (\<lambda>u. u_id u = insertId) (users db') \<noteq> []"
            using d i by simp
          then obtain v vs where
            byid: "filter (\<lambda>u. u_id u = insertId) (users db') = v # vs"
            by (cases "filter (\<lambda>u. u_id u = insertId) (users db')") auto
          have "findOrCreateUser p prov db = (Inr (Some v), db')"
            using r Nil Inr Nil2 ins pr byid r'
            by (simp add: findOrCreateUser_def execute_def)
          with assms show ?thesis by auto
        qed
      qed
    qed
  qed
qed

text \<open>
  C5. Calling \<open>findOrCreateUser\<close> twice with the same profile creates at most one user:
  the first call adds at most one row to \<open>users\<close>, the second call leaves the store
  exactly as the first left it (no insert, no update), and whenever the first call
  returns a user, be it found by its social identity, linked by its email or newly
  created, the second call returns a user with the same id.
\<close>

theorem findOrCreateUser_idempotent:
  "snd (findOrCreateUser p prov (snd (findOrCreateUser p prov db)))
     = snd (findOrCreateUser p prov db)
   \<and> length (users (snd (findOrCreateUser p prov db))) \<le> length (users db) + 1
   \<and> (\<forall>u1. fst (findOrCreateUser p prov db) = Inr (Some u1) \<longrightarrow>
         (\<exists>u2. fst (findOrCreateUser p prov (snd (findOrCreateUser p prov db))) = Inr (Some u2)
               \<and> u_id u2 = u_id u1))"
proof -
  obtain r db1 where f: "findOrCreateUser p prov db = (r, db1)"
    by (cases "findOrCreateUser p prov db")
  from findOrCreateUser_failure[OF f]
  have nn: "r \<noteq> Inr None" and fail: "\<And>e. r = Inl e \<Longrightarrow> db1 = db" by simp_all
  show ?thesis
  proof (cases r)
    case (Inl e)
    then show ?thesis using f fail[OF Inl] by simp
  next
    case (Inr ou)
    then obtain u1 where u1: "r = Inr (Some u1)" using nn by (cases ou) simp_all
    from findOrCreateUser_again[OF f[unfolded u1]] obtain u2 where
      "findOrCreateUser p prov db1 = (Inr (Some u2), db1)" "u_id u2 = u_id u1"
      "length (users db1) \<le> length (users db) + 1"
      by blast
    then show ?thesis using f u1 by simp
  qed
qed

theorem findOrCreateUser_idempotent_witness:
  "map_sum id (map_option u_id) (fst (findOrCreateUser google_profile Google lenient_store))
     = Inr (Some 1)
   \<and> map_sum id (map_option u_id)
       (fst (findOrCreateUser google_profile Google
               (snd (findOrCreateUser google_profile Google lenient_store))))
     = Inr (Some 1)
   \<and> length (users (snd (findOrCreateUser google_profile Google lenient_store))) = 1
   \<and> snd (findOrCreateUser google_profile Google
            (snd (findOrCreateUser google_profile Google lenient_store)))
     = snd (findOrCreateUser google_profile Google lenient_store)"
proof -
  let ?r = "findOrCreateUser google_profile Google lenient_store"
  have ev: "\<exists>u. ?r = (Inr (Some u), snd ?r) \<and> u_id u = 1 \<and> length (users (snd ?r)) = 1"
    by (simp add: findOrCreateUser_def google_profile_def lenient_store_def execute_def
          insert_user_def new_user_def social_clash_def)
  then obtain u1 where a: "?r = (Inr (Some u1), snd ?r)" and i: "u_id u1 = 1"
    and l: "length (users (snd ?r)) = 1" by blast
  have a1: "fst ?r = Inr (Some u1)" using a by (metis fst_conv)
  note t = findOrCreateUser_idempotent[of google_profile Google lenient_store]
  from t[THEN conjunct2, THEN conjunct2, THEN spec, of u1] a1 obtain u2 where
    b1: "fst (findOrCreateUser google_profile Google (snd ?r)) = Inr (Some u2)"
    and j: "u_id u2 = u_id u1" by blast
  have b2: "snd (findOrCreateUser google_profile Google (snd ?r)) = snd ?r"
    using t[THEN conjunct1] .
  have b: "findOrCreateUser google_profile Google (snd ?r) = (Inr (Some u2), snd ?r)"
    using b1 b2 by (metis prod.collapse)
  have "map_sum id (map_option u_id) (fst ?r) = Inr (Some 1)"
    using a i by (metis fst_conv map_sum.simps(2) option.simps(9))
  moreover have "map_sum id (map_option u_id)
       (fst (findOrCreateUser google_profile Google (snd ?r))) = Inr (Some 1)"
    using b i j by simp
  ultimately show ?thesis using l b by simp
qed

section \<open>Profile update\<close>

lemma allowed_not_typed: "k \<in> set allowedUpdates \<Longrightarrow> k \<notin> set typed_columns"
  by (auto simp add: allowedUpdates_def typed_columns_def)

lemma set_column_allowed:
  assumes "k \<in> set allowedUpdates"
  shows "protected (set_column D k v u) = protected u"
    and "k' \<notin> set allowedUpdates \<Longrightarrow> u_cols (set_column D k v u) k' = u_cols u k'"
  using assms allowed_not_typed[OF assms]
  by (auto simp add: set_column_def protected_def)

lemma set_columns_allowed:
  assumes "fst ` set kvs \<subseteq> set allowedUpdates"
  shows "protected (set_columns D kvs u) = protected u
       \<and> (k' \<notin> set allowedUpdates \<longrightarrow> u_cols (set_columns D kvs u) k' = u_cols u k')"
  using assms
proof (induction kvs arbitrary: u)
  case Nil
  show ?case by simp
next
  case (Cons kv kvs)
  obtain k v where kv: "kv = (k, v)" by (cases kv)
  have k: "k \<in> set allowedUpdates" and rest: "fst ` set kvs \<subseteq> set allowedUpdates"
    using Cons.prems kv by simp_all
  from Cons.IH[OF rest, of "set_column D k v u"] set_column_allowed[OF k, where D=D and v=v and u=u]
  show ?case unfolding kv by simp
qed

lemma allowed_keys:
  "fst ` set (filter (\<lambda>(key, v). key \<in> set allowedUpdates) b) \<subseteq> set allowedUpdates"
  by auto

lemma server_gate_users:
  "users (snd (server_authenticateToken D req db now)) = users db"
proof (cases "reachable db")
  case True
  then show ?thesis
    by (simp add: server_authenticateToken_def execute_def update_sessions_def
          split: sum.splits list.splits)
next
  case False
  then show ?thesis
    by (simp add: server_authenticateToken_def execute_def update_sessions_def
          split: sum.splits list.splits)
qed

lemma protected_set_columns:
  assumes "fst ` set kvs \<subseteq> set allowedUpdates"
  shows "map protected (map (\<lambda>u. if u_id u = uid then set_columns D kvs u else u) xs)
     = map protected xs"
  using set_columns_allowed[OF assms] by (induction xs) simp_all

lemma cols_set_columns:
  assumes "fst ` set kvs \<subseteq> set allowedUpdates" and "k \<notin> set allowedUpdates"
  shows "map (\<lambda>u. u_cols u k)
           (map (\<lambda>u. if u_id u = uid then set_columns D kvs u else u) xs)
         = map (\<lambda>u. u_cols u k) xs"
  using set_columns_allowed[OF assms(1)] assms(2) by (induction xs) simp_all

lemma profile_update_users:
  "users (snd (profile_update D b uid db)) = users db
   \<or> (\<exists>kvs. fst ` set kvs \<subseteq> set allowedUpdates \<and>
        users (snd (profile_update D b uid db))
          = map (\<lambda>u. if u_id u = uid then set_columns D kvs u else u) (users db))"
proof (cases "filter (\<lambda>(key, v). key \<in> set allowedUpdates) b")
  case Nil
  then show ?thesis by (simp add: profile_update_def)
next
  case (Cons kv kvs)
  have sub: "fst ` set (kv # kvs) \<subseteq> set allowedUpdates"
    using allowed_keys[of b] Cons by simp
  show ?thesis
  proof (cases "reachable db")
    case True
    then have "users (snd (profile_update D b uid db))
          = map (\<lambda>u. if u_id u = uid then set_columns D (kv # kvs) u else u) (users db)"
      using Cons by (simp add: profile_update_def update_users_def execute_def)
    then show ?thesis using sub by blast
  next
    case False
    then show ?thesis using Cons
      by (simp add: profile_update_def update_users_def execute_def)
  qed
qed

text \<open>
  C10. Whatever the request, PUT /api/user/profile leaves the id, email, password hash,
  social id, social provider, email-verified flag, active flag, avatar and last login of
  every user row as they were, and leaves every column that is not on the allow-list as
  it was: only allow-listed columns can change.
\<close>

theorem profile_update_respects_allow_list:
  "map protected (users (snd (server_profile_put D req db now))) = map protected (users db)
   \<and> (\<forall>k. k \<notin> set allowedUpdates \<longrightarrow>
         map (\<lambda>u. u_cols u k) (users (snd (server_profile_put D req db now)))
           = map (\<lambda>u. u_cols u k) (users db))"
proof -
  obtain g db1 where g: "server_authenticateToken D req db now = (g, db1)"
    by (cases "server_authenticateToken D req db now")
  have u1: "users db1 = users db" using server_gate_users[of D req db now] g by simp
  have "users (snd (server_profile_put D req db now)) = users db
      \<or> (\<exists>kvs uid. fst ` set kvs \<subseteq> set allowedUpdates \<and>
        users (snd (server_profile_put D req db now))
          = map (\<lambda>u. if u_id u = uid then set_columns D kvs u else u) (users db))"
  proof (cases g)
    case (Rejected r)
    then show ?thesis using g u1 by (simp add: server_profile_put_def)
  next
    case (Next x)
    obtain dec sid where x: "x = (dec, sid)" by (cases x)
    show ?thesis
    proof (cases "validation D (body req)")
      case None
      then show ?thesis using g Next x u1 by (simp add: server_profile_put_def)
    next
      case (Some b)
      have "snd (server_profile_put D req db now) = snd (profile_update D b (d_userId dec) db1)"
        using g Next x Some by (simp add: server_profile_put_def)
      then show ?thesis using profile_update_users[of D b "d_userId dec" db1] u1 by auto
    qed
  qed
  then show ?thesis
  proof
    assume "users (snd (server_profile_put D req db now)) = users db"
    then show ?thesis by simp
  next
    assume "\<exists>kvs uid. fst ` set kvs \<subseteq> set allowedUpdates \<and>
        users (snd (server_profile_put D req db now))
          = map (\<lambda>u. if u_id u = uid then set_columns D kvs u else u) (users db)"
    then obtain kvs uid where s: "fst ` set kvs \<subseteq> set allowedUpdates"
      and e: "users (snd (server_profile_put D req db now))
          = map (\<lambda>u. if u_id u = uid then set_columns D kvs u else u) (users db)" by blast
    have 1: "map protected (users (snd (server_profile_put D req db now)))
               = map protected (users db)"
      unfolding e by (rule protected_set_columns[OF s])
    have 2: "\<forall>k. k \<notin> set allowedUpdates \<longrightarrow>
         map (\<lambda>u. u_cols u k) (users (snd (server_profile_put D req db now)))
           = map (\<lambda>u. u_cols u k) (users db)"
    proof (intro allI impI)
      fix k
      assume "k \<notin> set allowedUpdates"
      from cols_set_columns[OF s this]
      show "map (\<lambda>u. u_cols u k) (users (snd (server_profile_put D req db now)))
           = map (\<lambda>u. u_cols u k) (users db)"
        unfolding e .
    qed
    show ?thesis using 1 2 by blast
  qed
qed

theorem profile_update_respects_allow_list_witness:
  "map protected (users (snd (server_profile_put deps0 hostile_update server_store 20)))
     = [(1, js ''a@x.com'', js ''$2b$12$'' @ js ''pw123456'', None, None, False, True, None, None)]
   \<and> map (\<lambda>u. u_cols u ''timezone'')
       (users (snd (server_profile_put deps0 hostile_update server_store 20))) = [None]
   \<and> map (\<lambda>u. u_cols u ''bio'')
       (users (snd (server_profile_put deps0 hostile_update server_store 20)))
     = [Some (JStr (js ''hello''))]
   \<and> status (fst (server_profile_put deps0 hostile_update server_store 20)) = 200"
proof -
  note t = profile_update_respects_allow_list[of deps0 hostile_update server_store 20]
  have p: "map protected (users (snd (server_profile_put deps0 hostile_update server_store 20)))
         = [(1, js ''a@x.com'', js ''$2b$12$'' @ js ''pw123456'', None, None, False, True, None, None)]"
    using t[THEN conjunct1]
    by (simp add: server_store_def store_with_def alice_def new_user_def protected_def)
  have n: "''timezone'' \<notin> set allowedUpdates" by (simp add: allowedUpdates_def)
  have c: "map (\<lambda>u. u_cols u ''timezone'')
             (users (snd (server_profile_put deps0 hostile_update server_store 20))) = [None]"
    using t[THEN conjunct2, THEN spec, of "''timezone''"] n
    by (simp add: server_store_def store_with_def alice_def new_user_def default_cols_def)
  have b: "map (\<lambda>u. u_cols u ''bio'')
             (users (snd (server_profile_put deps0 hostile_update server_store 20)))
     = [Some (JStr (js ''hello''))]
   \<and> status (fst (server_profile_put deps0 hostile_update server_store 20)) = 200"
    by (simp add: server_profile_put_def profile_update_def server_authenticateToken_def
          hostile_update_def bearer_request_def request_with_def server_store_def store_with_def
          session_of_def server_token_def update_sessions_def update_users_def execute_def
          server_JWT_SECRET_def deps0_def alice_def new_user_def seven_days_def
          allowedUpdates_def json_def set_column_def typed_columns_def)
  show ?thesis using p c b by blast
qed

section \<open>Store failures\<close>

lemma failed_connect:
  assumes "connectDB script = Rejects"
  shows "server_main script = [Listen, Exit 1]" and "start_server script = [Exit 1]"
  using assms by (simp_all add: server_main_def start_server_def)

lemma handlers_answer_500_when_store_fails:
  assumes "\<not> reachable db"
  shows "\<not> falsy (b_firstName r) \<and> \<not> falsy (b_lastName r) \<and> \<not> falsy (b_email r)
           \<and> \<not> falsy (b_password r) \<and> emailRegex_test (the (b_email r))
           \<and> 8 \<le> length (the (b_password r))
         \<Longrightarrow> registerUser D r db t
               = (json_error_message 500 ''Internal server error''
                    ''Registration failed. Please try again.'', db)"
    and "\<not> falsy (b_email r) \<and> \<not> falsy (b_password r)
         \<Longrightarrow> loginUser D r db t = (login_failed, db)"
    and "startsWith_Bearer (authorization r)
         \<Longrightarrow> logoutUser r db t = (json_error 500 ''Internal server error'', db)"
    and "b_email r \<noteq> None \<Longrightarrow> server_login D r db t = (server_error, db)"
    and "bearer (authorization r) \<noteq> None \<Longrightarrow> server_logout r db t = (server_error, db)"
    and "bearer (authorization r) = Some tok \<and> jwt_verify tok (JWT_SECRET D) t = Inr dec
         \<Longrightarrow> authenticateToken D r db t
               = Rejected (json_error_message 500 ''Internal server error''
                             ''Authentication failed'')"
proof -
  show "\<not> falsy (b_firstName r) \<and> \<not> falsy (b_lastName r) \<and> \<not> falsy (b_email r)
           \<and> \<not> falsy (b_password r) \<and> emailRegex_test (the (b_email r))
           \<and> 8 \<le> length (the (b_password r))
         \<Longrightarrow> registerUser D r db t
               = (json_error_message 500 ''Internal server error''
                    ''Registration failed. Please try again.'', db)"
    using assms by (simp add: registerUser_def execute_def register_catch_def)
  show "\<not> falsy (b_email r) \<and> \<not> falsy (b_password r)
         \<Longrightarrow> loginUser D r db t = (login_failed, db)"
    using assms by (simp add: loginUser_def execute_def)
  show "startsWith_Bearer (authorization r)
         \<Longrightarrow> logoutUser r db t = (json_error 500 ''Internal server error'', db)"
    using assms startsWith_Bearer_bearer[of "authorization r"]
    by (auto simp add: logoutUser_def revoke_sessions_def execute_def)
  show "b_email r \<noteq> None \<Longrightarrow> server_login D r db t = (server_error, db)"
    using assms by (cases "b_email r") (simp_all add: server_login_def execute_def)
  show "bearer (authorization r) \<noteq> None \<Longrightarrow> server_logout r db t = (server_error, db)"
    using assms
    by (cases "bearer (authorization r)")
       (simp_all add: server_logout_def revoke_sessions_def execute_def)
  show "bearer (authorization r) = Some tok \<and> jwt_verify tok (JWT_SECRET D) t = Inr dec
         \<Longrightarrow> authenticateToken D r db t
               = Rejected (json_error_message 500 ''Internal server error''
                             ''Authentication failed'')"
    using assms
    by (cases tok) (simp_all add: authenticateToken_def execute_def auth_catch_def)
qed

text \<open>
  C9 fails on server.js. With the store refusing the connection, the process that runs
  server.js has called \<open>app.listen\<close> before it exits with status 1, while the entry
  module that awaits \<open>connectDB\<close> exits without listening. And where the handlers answer a
  store failure with 500, \<open>authenticateToken\<close> of server.js answers it 403 and
  \<open>refreshToken\<close> 401.
\<close>

theorem server_listens_before_exit_on_failed_connect:
  "connectDB [Fails ''ECONNREFUSED'' False] = Rejects
   \<and> server_main [Fails ''ECONNREFUSED'' False] = [Listen, Exit 1]
   \<and> start_server [Fails ''ECONNREFUSED'' False] = [Exit 1]
   \<and> fst (server_authenticateToken deps0 (bearer_request server_token)
            (server_store\<lparr>reachable := False\<rparr>) 20)
       = Rejected (json_error 403 ''Invalid token'')
   \<and> fst (refreshToken deps0 (bearer_request controller_token)
            (controller_store\<lparr>reachable := False\<rparr>) 20)
       = json_error 401 ''Invalid or expired token''"
  by (simp add: server_main_def start_server_def server_authenticateToken_def refreshToken_def
        bearer_request_def request_with_def server_store_def controller_store_def store_with_def
        server_token_def controller_token_def execute_def server_JWT_SECRET_def JWT_SECRET_def
        deps0_def)

end
